theory Spec2Isabelle
  imports Main "HOL-Library.Sublist"
begin

section \<open>Python values used by pull\_osm\_data.py\<close>

text \<open>
  Strings are lists of \<^typ>\<open>char\<close>; a character stands for a code point below 256.
  Exceptions are values. \<open>py_exception\<close> holds the subclasses of Python's
  \<open>Exception\<close> that the script and its libraries raise; \<open>SystemExit\<close> derives from
  \<open>BaseException\<close> only, so it is a separate constructor of \<open>py_raise\<close> and no
  \<open>except Exception\<close> clause catches it. \<open>HTTPError\<close> is the one of
  \<open>requests\<close>, with the status; \<open>ConnectionError\<close> stands for every other
  RequestException, \<open>OtherOSError\<close> for every other OSError that is not a
  RequestException, \<open>OtherException\<close> for any other subclass of \<open>Exception\<close>.
\<close>

datatype py_exception =
    IndexError
  | ValueError
  | FileNotFoundError
  | PermissionError
  | FileExistsError
  | IsADirectoryError
  | OtherOSError
  | HTTPError nat
  | ConnectionError
  | OtherException string

datatype py_raise = Exc py_exception | SystemExit "int option"

text \<open>\<open>requests.exceptions.RequestException\<close> and its subclasses.\<close>

definition is_RequestException :: "py_exception \<Rightarrow> bool" where
  "is_RequestException e = (case e of HTTPError _ \<Rightarrow> True | ConnectionError \<Rightarrow> True | _ \<Rightarrow> False)"

subsection \<open>\<open>str.split(sep)\<close> for a one-character separator\<close>

fun py_split :: "char \<Rightarrow> string \<Rightarrow> string list" where
  "py_split sep [] = [[]]"
| "py_split sep (c # cs) =
     (if c = sep then [] # py_split sep cs
      else (c # hd (py_split sep cs)) # tl (py_split sep cs))"

text \<open>List indexing \<open>xs[i]\<close> with a non-negative index: out of range raises IndexError.\<close>

definition py_index :: "'a list \<Rightarrow> nat \<Rightarrow> py_exception + 'a" where
  "py_index xs i = (if i < length xs then Inr (xs ! i) else Inl IndexError)"

subsection \<open>Location parsing (download\_files, lines 154-157)\<close>

text \<open>
  \<open>paths = loc.split("/")\<close>, \<open>country = paths[1]\<close>,
  \<open>filename = f"{DOWNLOAD_DIR}/{country}-latest.osm.pbf"\<close>,
  \<open>filepath = f"{loc}-latest.osm.pbf"\<close>.
\<close>

definition country_of :: "string \<Rightarrow> py_exception + string" where
  "country_of loc = py_index (py_split CHR ''/'' loc) 1"

definition local_filename :: "string \<Rightarrow> string \<Rightarrow> string" where
  "local_filename download_dir country = download_dir @ ''/'' @ country @ ''-latest.osm.pbf''"

definition remote_filepath :: "string \<Rightarrow> string" where
  "remote_filepath loc = loc @ ''-latest.osm.pbf''"

section \<open>Freshness check\<close>

text \<open>
  A \<open>datetime\<close> is a count of microseconds on the naive local time line. Subtracting
  two of them gives a \<open>timedelta\<close>, which Python keeps normalised: \<open>days\<close> is the
  floor of the difference divided by one day, and may be negative.
\<close>

record timedelta =
  days :: int
  seconds :: int
  microseconds :: int

definition us_per_day :: int where
  "us_per_day = 86400000000"

definition datetime_sub :: "int \<Rightarrow> int \<Rightarrow> timedelta" where
  "datetime_sub a b =
     \<lparr> days = (a - b) div us_per_day,
       seconds = ((a - b) mod us_per_day) div 1000000,
       microseconds = (a - b) mod 1000000 \<rparr>"

text \<open>
  The file system maps a path to the entry stored there. Distinct path strings name
  distinct entries.
\<close>

datatype entry_kind = RegularFile | Directory

record fs_entry =
  kind :: entry_kind
  mtime :: int
  content :: string

type_synonym filesystem = "string \<rightharpoonup> fs_entry"

text \<open>
  \<open>needs_download\<close> (lines 127-134): \<open>os.path.exists\<close>, then the age of the
  file in whole days against 7.
\<close>

definition needs_download :: "filesystem \<Rightarrow> int \<Rightarrow> string \<Rightarrow> bool" where
  "needs_download files t_now filepath =
     (case files filepath of
        None \<Rightarrow> True
      | Some e \<Rightarrow> days (datetime_sub t_now (mtime e)) \<ge> 7)"

section \<open>Process state and the outside world\<close>

text \<open>
  The script acts on the file system and on \<open>os.environ\<close>; what it logs and which
  library calls it makes are kept, in order, in a trace.
\<close>

datatype log_level = INFO | ERROR | CRITICAL

datatype event =
    Log log_level string
  | RequestsGet string
  | Unlink string
  | SimpleWriter string
  | MergeInputReader
  | AddFile string
  | Apply string
  | Boto3Client string string string
  | UploadFileobj string string string

record state =
  fs :: filesystem
  environ :: "string \<rightharpoonup> string"
  trace :: "event list"

text \<open>
  What the libraries and the operating system answer is not decided by the script: each
  answer is a field of \<open>externals\<close>, a function of the current state (which holds the
  trace, so that two calls can be answered differently) and of the call's arguments.
  A fault field gives the exception a call raises for reasons the file system map does
  not show (permissions, a full disk, a missing parent directory), if any. The merge
  library is a black box: when it does not raise, it answers with the file system it
  leaves behind.
\<close>

record response =
  status_code :: nat
  chunks :: "string list"
  stream_error :: "py_exception option"

record externals =
  clock :: "nat \<Rightarrow> int"
  exc_str :: "py_exception \<Rightarrow> string"
  eval_truth :: "string \<Rightarrow> py_exception + bool"
  open_fault :: "state \<Rightarrow> string \<Rightarrow> py_exception option"
  write_fault :: "state \<Rightarrow> string \<Rightarrow> string \<Rightarrow> py_exception option"
  unlink_fault :: "state \<Rightarrow> string \<Rightarrow> py_exception option"
  makedirs_fault :: "state \<Rightarrow> string \<Rightarrow> py_exception option"
  requests_get :: "state \<Rightarrow> string \<Rightarrow> py_exception + response"
  osmium_SimpleWriter :: "state \<Rightarrow> string \<Rightarrow> py_exception + filesystem"
  osmium_MergeInputReader :: "state \<Rightarrow> py_exception option"
  osmium_add_file :: "state \<Rightarrow> string \<Rightarrow> py_exception option"
  osmium_apply :: "state \<Rightarrow> string list \<Rightarrow> string \<Rightarrow> py_exception + filesystem"
  boto3_client :: "state \<Rightarrow> string \<Rightarrow> string \<Rightarrow> string \<Rightarrow> py_exception option"
  s3_upload_fileobj :: "state \<Rightarrow> string \<Rightarrow> string \<Rightarrow> string \<Rightarrow> py_exception option"

type_synonym 'a result = "(py_raise + 'a) \<times> state"

definition emit :: "event \<Rightarrow> state \<Rightarrow> state" where
  "emit ev st = st\<lparr>trace := trace st @ [ev]\<rparr>"

text \<open>The clock is read as \<open>datetime.now()\<close>; the reading depends on how far the run is.\<close>

definition now :: "externals \<Rightarrow> state \<Rightarrow> int" where
  "now ext st = clock ext (length (trace st))"

text \<open>
  \<open>try: body except C1: h1 except C2: h2 ...\<close>: the first clause whose class matches
  the raised exception handles it; an exception no clause matches, and SystemExit,
  pass through.
\<close>

fun dispatch ::
  "((py_exception \<Rightarrow> bool) \<times> (py_exception \<Rightarrow> state \<Rightarrow> 'a result)) list \<Rightarrow>
   py_exception \<Rightarrow> state \<Rightarrow> 'a result" where
  "dispatch [] e st = (Inl (Exc e), st)"
| "dispatch ((matches, handler) # hs) e st =
     (if matches e then handler e st else dispatch hs e st)"

definition try_except ::
  "'a result \<Rightarrow> ((py_exception \<Rightarrow> bool) \<times> (py_exception \<Rightarrow> state \<Rightarrow> 'a result)) list \<Rightarrow>
   'a result" where
  "try_except body handlers =
     (case body of
        (Inl (Exc e), st) \<Rightarrow> dispatch handlers e st
      | (Inl (SystemExit c), st) \<Rightarrow> (Inl (SystemExit c), st)
      | (Inr v, st) \<Rightarrow> (Inr v, st))"

text \<open>One statement after another: a raise in the first skips the second.\<close>

definition and_then :: "'a result \<Rightarrow> ('a \<Rightarrow> state \<Rightarrow> 'b result) \<Rightarrow> 'b result" where
  "and_then r f = (case r of (Inl e, st) \<Rightarrow> (Inl e, st) | (Inr v, st) \<Rightarrow> f v st)"

definition is_Exception :: "py_exception \<Rightarrow> bool" where
  "is_Exception e = True"

section \<open>OSMDownloaderMerger\<close>

subsection \<open>clean\_old\_merge (lines 136-147)\<close>

text \<open>
  \<open>Path(p).unlink()\<close>: removes a regular file; raises when there is none. The file is
  looked up under the text \<open>p\<close> that every other call uses for it.
\<close>

definition path_unlink :: "externals \<Rightarrow> string \<Rightarrow> state \<Rightarrow> unit result" where
  "path_unlink ext p st =
     (let st1 = emit (Unlink p) st in
      case unlink_fault ext st1 p of
        Some e \<Rightarrow> (Inl (Exc e), st1)
      | None \<Rightarrow>
          (case fs st1 p of
             None \<Rightarrow> (Inl (Exc FileNotFoundError), st1)
           | Some en \<Rightarrow>
               if kind en = Directory then (Inl (Exc IsADirectoryError), st1)
               else (Inr (), st1\<lparr>fs := (fs st1)(p := None)\<rparr>)))"

text \<open>
  \<open>str(Path(p))\<close> on POSIX: empty segments and \<open>.\<close> segments go, a leading \<open>/\<close> is
  kept (two leading slashes stay two, three or more become one), and the empty path is
  \<open>.\<close>. The path names the same file as \<open>p\<close>; only its text differs.
\<close>

fun join_segments :: "string list \<Rightarrow> string" where
  "join_segments [] = []"
| "join_segments [seg] = seg"
| "join_segments (seg # rest) = seg @ ''/'' @ join_segments rest"

definition path_root :: "string \<Rightarrow> string" where
  "path_root p =
     (if take 2 p = ''//'' \<and> take 3 p \<noteq> ''///'' then ''//''
      else if take 1 p = ''/'' then ''/'' else [])"

definition path_str :: "string \<Rightarrow> string" where
  "path_str p =
     (let segments = filter (\<lambda>seg. seg \<noteq> [] \<and> seg \<noteq> ''.'') (py_split CHR ''/'' p)
      in if path_root p = [] \<and> segments = [] then ''.''
         else path_root p @ join_segments segments)"

definition clean_old_merge :: "externals \<Rightarrow> string \<Rightarrow> state \<Rightarrow> unit result" where
  "clean_old_merge ext file_input st =
     (let st1 = emit (Log INFO ''Cleaning up old merged file..'') st;
          file_path = path_str file_input
      in try_except
        (and_then (path_unlink ext file_input st1) (\<lambda>_ st2.
           (Inr (), emit (Log INFO (file_path @ '' has been deleted successfully.'')) st2)))
        [((\<lambda>e. e = FileNotFoundError),
            (\<lambda>e s. (Inr (), emit (Log ERROR (file_path @ '' does not exist.'')) s))),
         ((\<lambda>e. e = PermissionError),
            (\<lambda>e s. (Inr (), emit (Log ERROR (''Permission denied: '' @ file_path @ ''.'')) s))),
         (is_Exception,
            (\<lambda>e s. (Inr (), emit (Log ERROR (''Error occurred: '' @ exc_str ext e)) s)))])"

subsection \<open>File access\<close>

definition fs_write :: "string \<Rightarrow> string \<Rightarrow> int \<Rightarrow> state \<Rightarrow> state" where
  "fs_write p data t st =
     st\<lparr>fs := (fs st)(p \<mapsto> \<lparr>kind = RegularFile, mtime = t, content = data\<rparr>)\<rparr>"

text \<open>\<open>open(p, "wb")\<close>: creates the file or truncates it.\<close>

definition open_wb :: "externals \<Rightarrow> string \<Rightarrow> state \<Rightarrow> unit result" where
  "open_wb ext p st =
     (case open_fault ext st p of
        Some e \<Rightarrow> (Inl (Exc e), st)
      | None \<Rightarrow>
          (case fs st p of
             None \<Rightarrow> (Inr (), fs_write p [] (now ext st) st)
           | Some en \<Rightarrow>
               if kind en = Directory then (Inl (Exc IsADirectoryError), st)
               else (Inr (), fs_write p [] (now ext st) st)))"

text \<open>\<open>open(p)\<close> or \<open>open(p, "rb")\<close> followed by reading all of it.\<close>

definition open_read :: "externals \<Rightarrow> string \<Rightarrow> state \<Rightarrow> string result" where
  "open_read ext p st =
     (case open_fault ext st p of
        Some e \<Rightarrow> (Inl (Exc e), st)
      | None \<Rightarrow>
          (case fs st p of
             None \<Rightarrow> (Inl (Exc FileNotFoundError), st)
           | Some en \<Rightarrow>
               if kind en = Directory then (Inl (Exc IsADirectoryError), st)
               else (Inr (content en), st)))"

text \<open>\<open>f.write(chunk)\<close> for each chunk of \<open>response.iter_content\<close>.\<close>

fun write_chunks :: "externals \<Rightarrow> string \<Rightarrow> string list \<Rightarrow> state \<Rightarrow> unit result" where
  "write_chunks ext filename [] st = (Inr (), st)"
| "write_chunks ext filename (chunk # rest) st =
     (case write_fault ext st filename chunk of
        Some e \<Rightarrow> (Inl (Exc e), st)
      | None \<Rightarrow>
          write_chunks ext filename rest
            (fs_write filename
               ((case fs st filename of None \<Rightarrow> [] | Some en \<Rightarrow> content en) @ chunk)
               (now ext st) st))"

subsection \<open>The module's globals and the class\<close>

record config =
  all_locations :: "string list"
  DOWNLOAD_DIR :: string
  OSM_DIR :: string
  OSM_SOURCE :: "string option"
  S3_ENABLED :: bool
  s3_bucket_name :: string
  s3_endpoint_url :: string
  s3_access_key_id :: string
  s3_access_key_secret :: string

record OSMDownloaderMerger =
  base_url :: string
  locations :: "string list"

subsection \<open>\<open>__init__\<close> (lines 114-125)\<close>

definition makedirs :: "externals \<Rightarrow> string \<Rightarrow> state \<Rightarrow> unit result" where
  "makedirs ext p st =
     (case makedirs_fault ext st p of
        Some e \<Rightarrow> (Inl (Exc e), st)
      | None \<Rightarrow>
          (case fs st p of
             Some en \<Rightarrow> (Inl (Exc FileExistsError), st)
           | None \<Rightarrow>
               (Inr (), st\<lparr>fs := (fs st)(p \<mapsto>
                  \<lparr>kind = Directory, mtime = now ext st, content = []\<rparr>)\<rparr>)))"

definition init ::
  "externals \<Rightarrow> config \<Rightarrow> string \<Rightarrow> string list \<Rightarrow> state \<Rightarrow> OSMDownloaderMerger result" where
  "init ext cfg url locs st =
     and_then
       (try_except
          (and_then
             (if fs st (OSM_DIR cfg) = None then makedirs ext (OSM_DIR cfg) st else (Inr (), st))
             (\<lambda>_ st1. if fs st1 (DOWNLOAD_DIR cfg) = None then makedirs ext (DOWNLOAD_DIR cfg) st1
                       else (Inr (), st1)))
          [((\<lambda>e. e = FileExistsError), (\<lambda>e s. (Inr (), s)))])
       (\<lambda>_ s. (Inr \<lparr>base_url = url, locations = locs\<rparr>, s))"

subsection \<open>download\_files (lines 149-178)\<close>

text \<open>
  The body of the \<open>try\<close>: the GET, \<open>raise_for_status\<close> (an HTTPError for a status
  from 400 to 599), writing the chunks, the success message.
\<close>

definition fetch :: "externals \<Rightarrow> string \<Rightarrow> string \<Rightarrow> string \<Rightarrow> state \<Rightarrow> unit result" where
  "fetch ext url filename loc st =
     (let st1 = emit (RequestsGet url) st in
      case requests_get ext st1 url of
        Inl e \<Rightarrow> (Inl (Exc e), st1)
      | Inr resp \<Rightarrow>
          if 400 \<le> status_code resp \<and> status_code resp < 600
          then (Inl (Exc (HTTPError (status_code resp))), st1)
          else
            and_then (open_wb ext filename st1) (\<lambda>_ st2.
            and_then (write_chunks ext filename (chunks resp) st2) (\<lambda>_ st3.
              case stream_error resp of
                Some e \<Rightarrow> (Inl (Exc e), st3)
              | None \<Rightarrow>
                  (Inr (), emit (Log INFO (''Successfully downloaded '' @ loc @ '' OSM data''))
                             st3))))"

text \<open>
  One turn of the loop. \<open>Some filename\<close>: the turn reaches the \<open>append\<close>;
  \<open>None\<close>: the \<open>except\<close> clause ran and its \<open>continue\<close> skipped the append.
\<close>

definition download_one ::
  "externals \<Rightarrow> config \<Rightarrow> OSMDownloaderMerger \<Rightarrow> string \<Rightarrow> state \<Rightarrow> string option result" where
  "download_one ext cfg self loc st =
     (case country_of loc of
        Inl e \<Rightarrow> (Inl (Exc e), st)
      | Inr country \<Rightarrow>
          (let filename = local_filename (DOWNLOAD_DIR cfg) country;
               filepath = remote_filepath loc
           in if needs_download (fs st) (now ext st) filename
              then
                (let url = base_url self @ ''/'' @ filepath;
                     st1 = emit (Log INFO (''Downloading OSM file for '' @ loc)) st
                 in try_except
                      (and_then (fetch ext url filename loc st1) (\<lambda>_ s. (Inr (Some filename), s)))
                      [(is_RequestException,
                         (\<lambda>e s. (Inr None,
                            emit (Log ERROR (''Failed to download '' @ loc @ '' OSM data: ''
                                             @ exc_str ext e)) s)))])
              else (Inr (Some filename), st)))"

fun download_loop ::
  "externals \<Rightarrow> config \<Rightarrow> OSMDownloaderMerger \<Rightarrow> string list \<Rightarrow> string list \<Rightarrow> state \<Rightarrow>
   string list result" where
  "download_loop ext cfg self [] downloaded_files st = (Inr downloaded_files, st)"
| "download_loop ext cfg self (loc # rest) downloaded_files st =
     (case download_one ext cfg self loc st of
        (Inl r, st1) \<Rightarrow> (Inl r, st1)
      | (Inr None, st1) \<Rightarrow> download_loop ext cfg self rest downloaded_files st1
      | (Inr (Some filename), st1) \<Rightarrow>
          download_loop ext cfg self rest (downloaded_files @ [filename]) st1)"

definition download_files ::
  "externals \<Rightarrow> config \<Rightarrow> OSMDownloaderMerger \<Rightarrow> state \<Rightarrow> string list result" where
  "download_files ext cfg self st = download_loop ext cfg self (locations self) [] st"

subsection \<open>merge\_files (lines 180-204)\<close>

fun add_files :: "externals \<Rightarrow> string list \<Rightarrow> state \<Rightarrow> unit result" where
  "add_files ext [] st = (Inr (), st)"
| "add_files ext (input_file # rest) st =
     (let st1 = emit (AddFile input_file) (emit (Log INFO (''Processing '' @ input_file)) st) in
      case osmium_add_file ext st1 input_file of
        Some e \<Rightarrow> (Inl (Exc e), st1)
      | None \<Rightarrow> add_files ext rest st1)"

definition merge_files ::
  "externals \<Rightarrow> string list \<Rightarrow> string \<Rightarrow> state \<Rightarrow> string option result" where
  "merge_files ext input_files output_file st =
     try_except
       (and_then (clean_old_merge ext output_file (emit (Log INFO ''Starting merge process'') st))
          (\<lambda>_ st1.
             let st2 = emit (SimpleWriter output_file) st1 in
             case osmium_SimpleWriter ext st2 output_file of
               Inl e \<Rightarrow> (Inl (Exc e), st2)
             | Inr files1 \<Rightarrow>
                 (let st3 = emit MergeInputReader (st2\<lparr>fs := files1\<rparr>) in
                  case osmium_MergeInputReader ext st3 of
                    Some e \<Rightarrow> (Inl (Exc e), st3)
                  | None \<Rightarrow>
                      and_then (add_files ext input_files st3) (\<lambda>_ st4.
                        let st5 = emit (Apply output_file) st4 in
                        case osmium_apply ext st5 input_files output_file of
                          Inl e \<Rightarrow> (Inl (Exc e), st5)
                        | Inr files2 \<Rightarrow>
                            (Inr (Some output_file),
                             emit (Log INFO (''Successfully merged files into '' @ output_file))
                               (st5\<lparr>fs := files2\<rparr>))))))
       [(is_Exception,
          (\<lambda>e s. (Inr None, emit (Log ERROR (''Failed to merge files: '' @ exc_str ext e)) s)))]"

subsection \<open>upload\_to\_r2 (lines 206-237)\<close>

text \<open>\<open>os.path.basename\<close>: what follows the last \<open>/\<close>.\<close>

definition basename :: "string \<Rightarrow> string" where
  "basename p = rev (takeWhile (\<lambda>c. c \<noteq> CHR ''/'') (rev p))"

definition upload_to_r2 ::
  "externals \<Rightarrow> string \<Rightarrow> string \<Rightarrow> string \<Rightarrow> string \<Rightarrow> string \<Rightarrow> state \<Rightarrow> bool result" where
  "upload_to_r2 ext file_path bucket_name endpoint_url access_key_id access_key_secret st =
     try_except
       (let st1 = emit (Boto3Client endpoint_url access_key_id access_key_secret)
                    (emit (Log INFO ''Initiating upload to Cloudflare R2'') st) in
        case boto3_client ext st1 endpoint_url access_key_id access_key_secret of
          Some e \<Rightarrow> (Inl (Exc e), st1)
        | None \<Rightarrow>
            and_then (open_read ext file_path st1) (\<lambda>file_data st2.
              let st3 = emit (UploadFileobj file_data bucket_name (basename file_path)) st2 in
              case s3_upload_fileobj ext st3 file_data bucket_name (basename file_path) of
                Some e \<Rightarrow> (Inl (Exc e), st3)
              | None \<Rightarrow>
                  (Inr True,
                   emit (Log INFO (''Successfully uploaded '' @ file_path @ '' to R2'')) st3)))
       [(is_Exception,
          (\<lambda>e s. (Inr False, emit (Log ERROR (''Failed to upload to R2: '' @ exc_str ext e)) s)))]"

section \<open>Config loader\<close>

subsection \<open>String methods\<close>

text \<open>\<open>str.isspace\<close> on the code points below 256.\<close>

definition py_isspace :: "char \<Rightarrow> bool" where
  "py_isspace c =
     (c \<in> set [CHR 0x09, CHR 0x0A, CHR 0x0B, CHR 0x0C, CHR 0x0D, CHR 0x1C, CHR 0x1D, CHR 0x1E,
               CHR 0x1F, CHR 0x20, CHR 0x85, CHR 0xA0])"

definition py_strip :: "string \<Rightarrow> string" where
  "py_strip s = rev (dropWhile py_isspace (rev (dropWhile py_isspace s)))"

text \<open>The line boundaries of \<open>str.splitlines\<close> other than the pair CR LF.\<close>

definition is_linebreak :: "char \<Rightarrow> bool" where
  "is_linebreak c =
     (c \<in> set [CHR 0x0A, CHR 0x0B, CHR 0x0C, CHR 0x0D, CHR 0x1C, CHR 0x1D, CHR 0x1E, CHR 0x85])"

text \<open>
  \<open>str.splitlines()\<close>: \<open>cur\<close> holds the current line reversed. A boundary ends the
  line, CR LF counts once, and no empty line follows a final boundary.
\<close>

fun splitlines_from :: "string \<Rightarrow> string \<Rightarrow> string list" where
  "splitlines_from cur [] = (if cur = [] then [] else [rev cur])"
| "splitlines_from cur [c] =
     (if is_linebreak c then [rev cur] else [rev (c # cur)])"
| "splitlines_from cur (c # d # rest) =
     (if c = CHR 0x0D \<and> d = CHR 0x0A then rev cur # splitlines_from [] rest
      else if is_linebreak c then rev cur # splitlines_from [] (d # rest)
      else splitlines_from (c # cur) (d # rest))"

definition splitlines :: "string \<Rightarrow> string list" where
  "splitlines s = splitlines_from [] s"

text \<open>\<open>s.split(sep, maxsplit=1)\<close> for a one-character separator.\<close>

definition py_split_max1 :: "char \<Rightarrow> string \<Rightarrow> string list" where
  "py_split_max1 sep s =
     (if sep \<in> set s
      then [takeWhile (\<lambda>c. c \<noteq> sep) s, drop 1 (dropWhile (\<lambda>c. c \<noteq> sep) s)]
      else [s])"

subsection \<open>Dictionaries and \<open>os.environ\<close>\<close>

text \<open>
  \<open>dotenv_vars\<close> is a dict: an association list in insertion order with distinct
  keys. \<open>dict.setdefault\<close> adds the pair only when the key is new.
\<close>

definition dict_setdefault :: "('k \<times> 'v) list \<Rightarrow> 'k \<Rightarrow> 'v \<Rightarrow> ('k \<times> 'v) list" where
  "dict_setdefault d k v = (case map_of d k of None \<Rightarrow> d @ [(k, v)] | Some _ \<Rightarrow> d)"

text \<open>
  \<open>os.environ[key] = value\<close>: a NUL in either string and a \<open>=\<close> in the key raise
  ValueError, the empty key makes \<open>putenv\<close> fail with EINVAL.
\<close>

definition os_environ_set :: "string \<Rightarrow> string \<Rightarrow> state \<Rightarrow> unit result" where
  "os_environ_set key value st =
     (if CHR 0x00 \<in> set key \<or> CHR 0x00 \<in> set value then (Inl (Exc ValueError), st)
      else if CHR ''='' \<in> set key then (Inl (Exc ValueError), st)
      else if key = [] then (Inl (Exc OtherOSError), st)
      else (Inr (), st\<lparr>environ := (environ st)(key \<mapsto> value)\<rparr>))"

text \<open>\<open>os.environ.setdefault(key, value)\<close>.\<close>

definition os_environ_setdefault :: "string \<Rightarrow> string \<Rightarrow> state \<Rightarrow> unit result" where
  "os_environ_setdefault key value st =
     (case environ st key of None \<Rightarrow> os_environ_set key value st | Some _ \<Rightarrow> (Inr (), st))"

text \<open>\<open>os.environ.update(d)\<close> and the loop of lines 84-85 over \<open>d.items()\<close>.\<close>

fun os_environ_update :: "(string \<times> string) list \<Rightarrow> state \<Rightarrow> unit result" where
  "os_environ_update [] st = (Inr (), st)"
| "os_environ_update ((key, value) # rest) st =
     and_then (os_environ_set key value st) (\<lambda>_ st1. os_environ_update rest st1)"

fun os_environ_setdefault_all :: "(string \<times> string) list \<Rightarrow> state \<Rightarrow> unit result" where
  "os_environ_setdefault_all [] st = (Inr (), st)"
| "os_environ_setdefault_all ((key, value) # rest) st =
     and_then (os_environ_setdefault key value st) (\<lambda>_ st1. os_environ_setdefault_all rest st1)"

subsection \<open>load\_env\_file (lines 58-85)\<close>

text \<open>
  The loop of lines 73-79 with \<open>dotenv_vars\<close> as accumulator. Unpacking
  \<open>key, value = ...\<close> raises ValueError unless the split has two parts.
\<close>

fun parse_lines ::
  "string list \<Rightarrow> (string \<times> string) list \<Rightarrow> py_exception + (string \<times> string) list" where
  "parse_lines [] dotenv_vars = Inr dotenv_vars"
| "parse_lines (raw # rest) dotenv_vars =
     (let line = py_strip raw in
      if line = [] \<or> take 1 line = ''#'' \<or> CHR ''='' \<notin> set line
      then parse_lines rest dotenv_vars
      else
        (case py_split_max1 CHR ''='' line of
           [key, value] \<Rightarrow> parse_lines rest (dict_setdefault dotenv_vars key value)
         | _ \<Rightarrow> Inl ValueError))"

definition is_file :: "state \<Rightarrow> string \<Rightarrow> bool" where
  "is_file st p = (case fs st p of None \<Rightarrow> False | Some en \<Rightarrow> kind en = RegularFile)"

text \<open>Lines 69-85, once \<open>dotenv_path\<close> is chosen.\<close>

definition load_from :: "externals \<Rightarrow> string \<Rightarrow> bool \<Rightarrow> state \<Rightarrow> unit result" where
  "load_from ext dotenv_path override st =
     and_then (open_read ext dotenv_path st) (\<lambda>text st1.
       case parse_lines (splitlines text) [] of
         Inl e \<Rightarrow> (Inl (Exc e), st1)
       | Inr dotenv_vars \<Rightarrow>
           if override then os_environ_update dotenv_vars st1
           else os_environ_setdefault_all dotenv_vars st1)"

definition load_env_file :: "externals \<Rightarrow> string \<Rightarrow> bool \<Rightarrow> state \<Rightarrow> unit result" where
  "load_env_file ext input_env_file override st =
     (if is_file st input_env_file then load_from ext input_env_file override st
      else if is_file st ''.env'' then load_from ext ''.env'' override st
      else (Inl (SystemExit None), emit (Log CRITICAL ''Unable to load env vars'') st))"

section \<open>The module body and main\<close>








section \<open>Vocabulary of the properties\<close>



text \<open>
  The only ERROR messages of \<open>download_files\<close> are those of skipped locations.
\<close>

definition is_error_log :: "event \<Rightarrow> bool" where
  "is_error_log ev = (case ev of Log ERROR _ \<Rightarrow> True | _ \<Rightarrow> False)"

definition error_count :: "state \<Rightarrow> nat" where
  "error_count st = length (filter is_error_log (trace st))"

text \<open>
  The local file of a location (lines 154-156), when the location has a country segment.
\<close>

definition local_path :: "config \<Rightarrow> string \<Rightarrow> string option" where
  "local_path cfg loc =
     (case country_of loc of Inl e \<Rightarrow> None | Inr c \<Rightarrow> Some (local_filename (DOWNLOAD_DIR cfg) c))"

text \<open>
  A line of the config file is well formed when, stripped, it is not empty, does not
  start with \<open>#\<close> and contains \<open>=\<close>; its key is what precedes the first \<open>=\<close>, its
  value what follows it.
\<close>

definition well_formed :: "string \<Rightarrow> bool" where
  "well_formed raw =
     (py_strip raw \<noteq> [] \<and> take 1 (py_strip raw) \<noteq> ''#'' \<and> CHR ''='' \<in> set (py_strip raw))"

definition line_key :: "string \<Rightarrow> string" where
  "line_key raw = takeWhile (\<lambda>c. c \<noteq> CHR ''='') (py_strip raw)"

definition line_value :: "string \<Rightarrow> string" where
  "line_value raw = drop 1 (dropWhile (\<lambda>c. c \<noteq> CHR ''='') (py_strip raw))"

definition line_pair :: "string \<Rightarrow> string \<times> string" where
  "line_pair raw = (line_key raw, line_value raw)"

text \<open>
  The file \<open>load_env_file\<close> reads when one of the two candidates is a regular file.
\<close>

definition dotenv_path_of :: "state \<Rightarrow> string \<Rightarrow> string" where
  "dotenv_path_of st input_env_file = (if is_file st input_env_file then input_env_file else ''.env'')"

text \<open>The pairs that \<open>os.environ\<close> accepts.\<close>

definition valid_env_pair :: "string \<times> string \<Rightarrow> bool" where
  "valid_env_pair kv =
     (fst kv \<noteq> [] \<and> CHR 0x00 \<notin> set (fst kv) \<and> CHR ''='' \<notin> set (fst kv) \<and>
      CHR 0x00 \<notin> set (snd kv))"

text \<open>
  \<open>os.path.isdir\<close>; what the download needs from the local file system and from
  \<open>requests\<close> to end without an exception of its own: opening and writing the local
  file succeed, and whatever \<open>requests\<close> raises is a RequestException.
\<close>

definition is_dir :: "state \<Rightarrow> string \<Rightarrow> bool" where
  "is_dir st p = (case fs st p of None \<Rightarrow> False | Some en \<Rightarrow> kind en = Directory)"

definition local_files_writable :: "externals \<Rightarrow> bool" where
  "local_files_writable ext =
     ((\<forall>s p. open_fault ext s p = None) \<and> (\<forall>s p c. write_fault ext s p c = None))"

definition only_request_errors :: "externals \<Rightarrow> bool" where
  "only_request_errors ext =
     ((\<forall>s u e. requests_get ext s u = Inl e \<longrightarrow> is_RequestException e) \<and>
      (\<forall>s u r e. requests_get ext s u = Inr r \<longrightarrow> stream_error r = Some e \<longrightarrow>
         is_RequestException e))"

text \<open>
  What decides the fate of a location at its turn, in the state \<open>s\<close> in which the turn
  starts: its file is fresh (line 159 is false), or its download is attempted and the body
  of the \<open>try\<close> ends normally or raises. A turn keeps the path when the file is fresh or
  the attempt ends normally, and skips the location when the attempt raises a request
  error.
\<close>

definition is_fresh :: "externals \<Rightarrow> config \<Rightarrow> string \<Rightarrow> state \<Rightarrow> bool" where
  "is_fresh ext cfg loc s =
     (case local_path cfg loc of
        None \<Rightarrow> False
      | Some p \<Rightarrow> \<not> needs_download (fs s) (now ext s) p)"

definition download_attempt ::
  "externals \<Rightarrow> config \<Rightarrow> OSMDownloaderMerger \<Rightarrow> string \<Rightarrow> state \<Rightarrow> py_raise + unit" where
  "download_attempt ext cfg self loc s =
     (case local_path cfg loc of
        None \<Rightarrow> Inl (Exc IndexError)
      | Some p \<Rightarrow>
          fst (fetch ext (base_url self @ ''/'' @ remote_filepath loc) p loc
                 (emit (Log INFO (''Downloading OSM file for '' @ loc)) s)))"

definition keeps_path :: "externals \<Rightarrow> config \<Rightarrow> OSMDownloaderMerger \<Rightarrow> string \<Rightarrow> state \<Rightarrow> bool" where
  "keeps_path ext cfg self loc s =
     (is_fresh ext cfg loc s \<or> download_attempt ext cfg self loc s = Inr ())"

definition skips :: "externals \<Rightarrow> config \<Rightarrow> OSMDownloaderMerger \<Rightarrow> string \<Rightarrow> state \<Rightarrow> bool" where
  "skips ext cfg self loc s =
     (\<not> is_fresh ext cfg loc s \<and>
      (case download_attempt ext cfg self loc s of
         Inl (Exc e) \<Rightarrow> is_RequestException e
       | _ \<Rightarrow> False))"

text \<open>Each location with the state in which its turn of the loop starts.\<close>

fun turns ::
  "externals \<Rightarrow> config \<Rightarrow> OSMDownloaderMerger \<Rightarrow> string list \<Rightarrow> state \<Rightarrow> (string \<times> state) list" where
  "turns ext cfg self [] st = []"
| "turns ext cfg self (loc # rest) st =
     (loc, st) # turns ext cfg self rest (snd (download_one ext cfg self loc st))"

section \<open>Example worlds\<close>

text \<open>
  A world where nothing fails except the download of the togo extract (status 404), a
  state with a stale togo file, a config file and an old merged output, and variants where
  the merge library, the deletion or the storage client fail.
\<close>

definition stale_entry :: fs_entry where
  "stale_entry = \<lparr>kind = RegularFile, mtime = - (8 * us_per_day), content = ''old''\<rparr>"

definition example_externals :: externals where
  "example_externals =
     \<lparr> clock = (\<lambda>_. 0),
       exc_str = (\<lambda>_. ''error''),
       eval_truth = (\<lambda>_. Inl (OtherException ''NameError'')),
       open_fault = (\<lambda>_ _. None),
       write_fault = (\<lambda>_ _ _. None),
       unlink_fault = (\<lambda>_ _. None),
       makedirs_fault = (\<lambda>_ _. None),
       requests_get = (\<lambda>_ url.
         if url = ''http://osm/africa/togo-latest.osm.pbf''
         then Inr \<lparr>status_code = 404, chunks = [], stream_error = None\<rparr>
         else Inr \<lparr>status_code = 200, chunks = [''pbf''], stream_error = None\<rparr>),
       osmium_SimpleWriter = (\<lambda>s out.
         Inr ((fs s)(out \<mapsto> \<lparr>kind = RegularFile, mtime = 0, content = []\<rparr>))),
       osmium_MergeInputReader = (\<lambda>_. None),
       osmium_add_file = (\<lambda>_ _. None),
       osmium_apply = (\<lambda>s ins out.
         Inr ((fs s)(out \<mapsto> \<lparr>kind = RegularFile, mtime = 0, content = ''merged''\<rparr>))),
       boto3_client = (\<lambda>_ _ _ _. None),
       s3_upload_fileobj = (\<lambda>_ _ _ _. None) \<rparr>"

definition example_config :: config where
  "example_config =
     \<lparr> all_locations = [''africa/togo'', ''africa/benin''],
       DOWNLOAD_DIR = ''d'',
       OSM_DIR = ''o'',
       OSM_SOURCE = Some ''http://osm'',
       S3_ENABLED = True,
       s3_bucket_name = ''bucket'',
       s3_endpoint_url = ''https://r2'',
       s3_access_key_id = ''id'',
       s3_access_key_secret = ''secret'' \<rparr>"

definition example_handler :: OSMDownloaderMerger where
  "example_handler = \<lparr>base_url = ''http://osm'', locations = [''africa/togo'', ''africa/benin'']\<rparr>"

definition env_entry :: fs_entry where
  "env_entry =
     \<lparr>kind = RegularFile, mtime = 0,
      content = ''A=1'' @ [CHR 0x0A] @ ''B=2'' @ [CHR 0x0A] @ ''# note'' @ [CHR 0x0A] @ [CHR 0x0A]
                @ ''A=3'' @ [CHR 0x0A]\<rparr>"

definition merged_entry :: fs_entry where
  "merged_entry = \<lparr>kind = RegularFile, mtime = 0, content = ''merged''\<rparr>"

definition example_state :: state where
  "example_state =
     \<lparr> fs = [''d/togo-latest.osm.pbf'' \<mapsto> stale_entry, ''.osm.env'' \<mapsto> env_entry,
             ''o/all.osm.pbf'' \<mapsto> merged_entry],
       environ = [''A'' \<mapsto> ''9''],
       trace = [] \<rparr>"


definition failing_merge :: externals where
  "failing_merge =
     example_externals\<lparr>osmium_SimpleWriter := (\<lambda>_ _. Inl (OtherException ''RuntimeError''))\<rparr>"

definition failing_unlink :: externals where
  "failing_unlink = example_externals\<lparr>unlink_fault := (\<lambda>_ _. Some PermissionError)\<rparr>"

definition failing_client :: externals where
  "failing_client = example_externals\<lparr>boto3_client := (\<lambda>_ _ _ _. Some ConnectionError)\<rparr>"

text \<open>The example state once \<open>__init__\<close> has made the two directories.\<close>

definition started_state :: state where
  "started_state =
     snd (init example_externals example_config ''http://osm'' (all_locations example_config)
            example_state)"
section \<open>Properties\<close>

lemmas example_defs = example_externals_def example_config_def example_handler_def
  example_state_def stale_entry_def env_entry_def merged_entry_def us_per_day_def
  failing_merge_def failing_unlink_def failing_client_def

subsection \<open>Location parsing\<close>

lemma py_split_nonempty: "py_split sep s \<noteq> []"
  by (induction s) auto

lemma length_py_split: "length (py_split sep s) = Suc (count_list s sep)"
proof (induction s)
  case Nil
  show ?case by simp
next
  case (Cons c cs)
  have "length (tl (py_split sep cs)) = count_list cs sep"
    using Cons.IH by simp
  with Cons.IH show ?case by simp
qed

text \<open>
  C2: a location with exactly one \<open>/\<close> splits into two segments, so the read of the
  country segment at index 1 is in bounds and yields a value; a location with no \<open>/\<close>
  splits into one segment and the same read raises IndexError.
\<close>

theorem location_split_in_bounds:
  "(count_list loc CHR ''/'' = 1 \<longrightarrow>
      length (py_split CHR ''/'' loc) = 2 \<and> (\<exists>c. country_of loc = Inr c)) \<and>
   (CHR ''/'' \<notin> set loc \<longrightarrow>
      length (py_split CHR ''/'' loc) = 1 \<and> country_of loc = Inl IndexError)"
  by (simp add: country_of_def py_index_def length_py_split count_list_0_iff)

theorem location_split_in_bounds_witness:
  "count_list ''africa/togo'' CHR ''/'' = 1 \<and> country_of ''africa/togo'' = Inr ''togo'' \<and>
   CHR ''/'' \<notin> set ''togo'' \<and> country_of ''togo'' = Inl IndexError"
  using location_split_in_bounds [of "''africa/togo''"] location_split_in_bounds [of "''togo''"]
  by (simp add: country_of_def py_index_def)

subsection \<open>Freshness check\<close>

lemma whole_days_ge_7: "(7 \<le> (x::int) div 86400000000) = (604800000000 \<le> x)"
  by arith

text \<open>
  C5: \<open>needs_download\<close> is true for a path that does not exist; for an existing path
  it is true exactly when now minus the modification time is at least 7 days.
\<close>

theorem needs_download_spec:
  "needs_download files t_now p =
     (case files p of None \<Rightarrow> True | Some e \<Rightarrow> t_now - mtime e \<ge> 7 * us_per_day)"
  by (simp add: needs_download_def datetime_sub_def us_per_day_def whole_days_ge_7
      split: option.split)

theorem needs_download_spec_witness:
  "needs_download (fs example_state) 0 ''d/benin-latest.osm.pbf'' \<and>
   needs_download (fs example_state) 0 ''d/togo-latest.osm.pbf'' \<and>
   needs_download (fs example_state) (7 * us_per_day) ''.osm.env'' \<and>
   \<not> needs_download (fs example_state) (7 * us_per_day - 1) ''.osm.env''"
  using needs_download_spec [of "fs example_state" 0 "''d/benin-latest.osm.pbf''"]
    needs_download_spec [of "fs example_state" 0 "''d/togo-latest.osm.pbf''"]
    needs_download_spec [of "fs example_state" "7 * us_per_day" "''.osm.env''"]
    needs_download_spec [of "fs example_state" "7 * us_per_day - 1" "''.osm.env''"]
  by (simp add: example_defs)

subsection \<open>Running statements in sequence\<close>

lemma trace_emit: "trace (emit ev st) = trace st @ [ev]"
  by (simp add: emit_def)

lemma fs_emit: "fs (emit ev st) = fs st"
  by (simp add: emit_def)

lemma environ_emit: "environ (emit ev st) = environ st"
  by (simp add: emit_def)

lemma and_then_alt: "and_then r f = (case fst r of Inl e \<Rightarrow> (Inl e, snd r) | Inr v \<Rightarrow> f v (snd r))"
  by (cases r) (simp add: and_then_def split: sum.split)

lemma try_except_alt:
  "try_except body hs =
     (case fst body of Inl (Exc e) \<Rightarrow> dispatch hs e (snd body)
      | Inl (SystemExit c) \<Rightarrow> (Inl (SystemExit c), snd body)
      | Inr v \<Rightarrow> (Inr v, snd body))"
  by (cases body) (simp add: try_except_def split: sum.split py_raise.split)

lemmas run_simps = and_then_alt try_except_alt Let_def is_Exception_def trace_emit fs_emit environ_emit

subsection \<open>Deleting the old output and merging\<close>

lemma path_unlink_trace: "trace (snd (path_unlink ext p st)) = trace st @ [Unlink p]"
  by (simp add: path_unlink_def Let_def trace_emit split: option.split)

lemma path_unlink_no_exit: "fst (path_unlink ext p st) \<noteq> Inl (SystemExit c)"
  by (simp add: path_unlink_def Let_def split: option.split)

lemma clean_old_merge_returns: "fst (clean_old_merge ext p st) = Inr ()"
  using path_unlink_no_exit [of ext p]
  by (auto simp: clean_old_merge_def run_simps split: sum.splits py_raise.splits)

lemma clean_old_merge_trace:
  "\<exists>evs. trace (snd (clean_old_merge ext p st)) = trace st @ evs \<and> Unlink p \<in> set evs"
  using path_unlink_no_exit [of ext p]
  by (auto simp: clean_old_merge_def run_simps path_unlink_trace split: sum.splits py_raise.splits)


lemma add_files_prefix: "prefix (trace st) (trace (snd (add_files ext ins st)))"
proof (induction ins arbitrary: st)
  case Nil
  show ?case by simp
next
  case (Cons f rest)
  let ?st1 = "emit (AddFile f) (emit (Log INFO (''Processing '' @ f)) st)"
  have "prefix (trace st) (trace ?st1)" by (simp add: trace_emit)
  moreover have "prefix (trace ?st1) (trace (snd (add_files ext rest ?st1)))" by (rule Cons.IH)
  ultimately have "prefix (trace st) (trace (snd (add_files ext rest ?st1)))"
    by (rule prefix_order.trans)
  then show ?case
    by (simp add: Let_def trace_emit split: option.split)
qed

lemma add_files_prefix_trans: "prefix xs (trace s) \<Longrightarrow> prefix xs (trace (snd (add_files ext ins s)))"
  using add_files_prefix [of s ext ins] by (rule prefix_order.trans [rotated])


lemma merge_files_tail:
  "prefix (trace (snd (clean_old_merge ext out (emit (Log INFO ''Starting merge process'') st))) @ [SimpleWriter out])
     (trace (snd (merge_files ext ins out st)))"
  by (auto simp: merge_files_def and_then_alt try_except_alt Let_def is_Exception_def clean_old_merge_returns trace_emit
       intro!: add_files_prefix_trans prefix_prefix
       split: sum.splits option.splits py_raise.splits)

lemma merge_files_trace:
  "\<exists>pre post. trace (snd (merge_files ext ins out st)) = trace st @ pre @ SimpleWriter out # post \<and> Unlink out \<in> set pre"
proof -
  let ?st0 = "emit (Log INFO ''Starting merge process'') st"
  obtain evs where e: "trace (snd (clean_old_merge ext out ?st0)) = trace ?st0 @ evs" "Unlink out \<in> set evs"
    using clean_old_merge_trace by blast
  obtain post where "trace (snd (merge_files ext ins out st)) = (trace (snd (clean_old_merge ext out ?st0)) @ [SimpleWriter out]) @ post"
    using merge_files_tail [of ext out st ins] unfolding prefix_def by blast
  then have "trace (snd (merge_files ext ins out st)) = trace st @ (Log INFO ''Starting merge process'' # evs) @ SimpleWriter out # post"
    using e by (simp add: trace_emit)
  moreover have "Unlink out \<in> set (Log INFO ''Starting merge process'' # evs)" using e by simp
  ultimately show ?thesis by blast
qed

text \<open>
  C6: \<open>clean_old_merge\<close> returns normally for every path and every outcome of the
  deletion (file absent, permission denied, any other exception); and \<open>merge_files\<close>
  always attempts the deletion and then goes on to open the writer of the merge library,
  whatever the deletion did.
\<close>

theorem clean_old_merge_never_raises:
  "fst (clean_old_merge ext file_input st) = Inr () \<and>
   (\<exists>pre post.
      trace (snd (merge_files ext input_files output_file st)) =
        trace st @ pre @ SimpleWriter output_file # post \<and>
      Unlink output_file \<in> set pre)"
  using clean_old_merge_returns [of ext file_input st]
    merge_files_trace [of ext input_files output_file st]
  by (rule conjI)

theorem clean_old_merge_never_raises_witness:
  "fst (clean_old_merge failing_unlink ''o/all.osm.pbf'' example_state) = Inr () \<and>
   fs (snd (clean_old_merge failing_unlink ''o/all.osm.pbf'' example_state)) ''o/all.osm.pbf'' =
     Some merged_entry \<and>
   SimpleWriter ''o/all.osm.pbf'' \<in>
     set (trace (snd (merge_files failing_unlink [''d/benin-latest.osm.pbf'']
                        ''o/all.osm.pbf'' example_state)))"
proof -
  note t = clean_old_merge_never_raises [of failing_unlink "''o/all.osm.pbf''" example_state
      "[''d/benin-latest.osm.pbf'']" "''o/all.osm.pbf''"]
  have "fs (snd (clean_old_merge failing_unlink ''o/all.osm.pbf'' example_state)) ''o/all.osm.pbf'' =
     Some merged_entry"
    by (simp add: clean_old_merge_def path_unlink_def failing_unlink_def example_externals_def
        Let_def and_then_def try_except_def emit_def example_state_def)
  then show ?thesis using t by auto
qed

subsection \<open>Upload\<close>

lemma open_read_no_exit: "fst (open_read ext p st) \<noteq> Inl (SystemExit c)"
  by (simp add: open_read_def split: option.split)

lemma open_read_state: "snd (open_read ext p st) = st"
  by (simp add: open_read_def split: option.split)


lemma upload_returns: "\<exists>b. fst (upload_to_r2 ext file_path bucket endpoint key_id secret st) = Inr b"
  using open_read_no_exit [of ext file_path]
  by (auto simp: upload_to_r2_def run_simps split: sum.splits option.splits py_raise.splits)

lemma upload_client_fails:
  "\<forall>s. boto3_client ext s endpoint key_id secret = Some e \<Longrightarrow>
   fst (upload_to_r2 ext file_path bucket endpoint key_id secret st) = Inr False"
  by (simp add: upload_to_r2_def run_simps)

lemma upload_open_fails:
  "\<forall>s. open_fault ext s file_path = Some e \<Longrightarrow>
   fst (upload_to_r2 ext file_path bucket endpoint key_id secret st) = Inr False"
  by (simp add: upload_to_r2_def run_simps open_read_def split: option.split)

lemma upload_file_missing:
  "fs st file_path = None \<Longrightarrow>
   fst (upload_to_r2 ext file_path bucket endpoint key_id secret st) = Inr False"
  by (simp add: upload_to_r2_def run_simps open_read_def split: option.split)

lemma upload_put_fails:
  "\<forall>s d. s3_upload_fileobj ext s d bucket (basename file_path) = Some e \<Longrightarrow>
   fst (upload_to_r2 ext file_path bucket endpoint key_id secret st) = Inr False"
  using open_read_no_exit [of ext file_path]
  by (auto simp: upload_to_r2_def run_simps split: sum.splits option.splits py_raise.splits)

text \<open>
  C7: \<open>upload_to_r2\<close> always returns a boolean and never raises; when building the
  storage client raises, when opening the local file raises or the file is missing, or
  when the upload call raises, the result is False.
\<close>

theorem upload_to_r2_never_raises:
  "(\<exists>b. fst (upload_to_r2 ext file_path bucket endpoint key_id secret st) = Inr b) \<and>
   ((\<forall>s. boto3_client ext s endpoint key_id secret = Some e) \<longrightarrow>
      fst (upload_to_r2 ext file_path bucket endpoint key_id secret st) = Inr False) \<and>
   ((\<forall>s. open_fault ext s file_path = Some e) \<longrightarrow>
      fst (upload_to_r2 ext file_path bucket endpoint key_id secret st) = Inr False) \<and>
   (fs st file_path = None \<longrightarrow>
      fst (upload_to_r2 ext file_path bucket endpoint key_id secret st) = Inr False) \<and>
   ((\<forall>s d. s3_upload_fileobj ext s d bucket (basename file_path) = Some e) \<longrightarrow>
      fst (upload_to_r2 ext file_path bucket endpoint key_id secret st) = Inr False)"
proof (intro conjI impI)
  show "\<exists>b. fst (upload_to_r2 ext file_path bucket endpoint key_id secret st) = Inr b"
    by (rule upload_returns)
qed (erule upload_client_fails upload_open_fails upload_file_missing upload_put_fails)+

theorem upload_to_r2_never_raises_witness:
  "fst (upload_to_r2 failing_client ''o/all.osm.pbf'' ''bucket'' ''https://r2'' ''id'' ''secret''
          example_state) = Inr False \<and>
   fst (upload_to_r2 example_externals ''o/missing.pbf'' ''bucket'' ''https://r2'' ''id''
          ''secret'' example_state) = Inr False"
proof -
  note t = upload_to_r2_never_raises [of failing_client "''o/all.osm.pbf''" "''bucket''"
      "''https://r2''" "''id''" "''secret''" example_state ConnectionError]
  note u = upload_to_r2_never_raises [of example_externals "''o/missing.pbf''" "''bucket''"
      "''https://r2''" "''id''" "''secret''" example_state ConnectionError]
  have a: "\<forall>s. boto3_client failing_client s ''https://r2'' ''id'' ''secret'' = Some ConnectionError"
    by (simp add: failing_client_def example_externals_def)
  have b: "fs example_state ''o/missing.pbf'' = None"
    by (simp add: example_state_def)
  have 1: "fst (upload_to_r2 failing_client ''o/all.osm.pbf'' ''bucket'' ''https://r2'' ''id''
             ''secret'' example_state) = Inr False"
    using t [THEN conjunct2, THEN conjunct1] a by (rule mp)
  have 2: "fst (upload_to_r2 example_externals ''o/missing.pbf'' ''bucket'' ''https://r2'' ''id''
             ''secret'' example_state) = Inr False"
    using u [THEN conjunct2, THEN conjunct2, THEN conjunct2, THEN conjunct1] b by (rule mp)
  show ?thesis using 1 2 by (rule conjI)
qed






subsection \<open>Download\<close>

lemma trace_fs_write: "trace (fs_write p d t st) = trace st"
  by (simp add: fs_write_def)

lemma open_wb_trace: "trace (snd (open_wb ext p st)) = trace st"
  by (simp add: open_wb_def trace_fs_write split: option.split)

lemma open_wb_no_exit: "fst (open_wb ext p st) \<noteq> Inl (SystemExit c)"
  by (simp add: open_wb_def split: option.split)

lemma write_chunks_trace: "trace (snd (write_chunks ext p cs st)) = trace st"
  by (induction cs arbitrary: st) (simp_all add: trace_fs_write split: option.split)

lemma write_chunks_no_exit: "fst (write_chunks ext p cs st) \<noteq> Inl (SystemExit c)"
  by (induction cs arbitrary: st) (simp_all split: option.split)

lemma fetch_no_exit: "fst (fetch ext url filename loc st) \<noteq> Inl (SystemExit c)"
  using open_wb_no_exit [of ext filename] write_chunks_no_exit [of ext filename]
  by (auto simp: fetch_def run_simps split: sum.splits option.splits)

lemma fetch_trace:
  "\<exists>evs. trace (snd (fetch ext url filename loc st)) = trace st @ evs \<and>
         (\<forall>ev\<in>set evs. (\<exists>u. ev = RequestsGet u) \<or> (\<exists>m. ev = Log INFO m))"
  by (auto simp: fetch_def run_simps open_wb_trace write_chunks_trace split: sum.splits option.splits)

lemma fetch_filter:
  assumes "\<And>u. \<not> P (RequestsGet u)" "\<And>m. \<not> P (Log INFO m)"
  shows "filter P (trace (snd (fetch ext url filename loc st))) = filter P (trace st)"
proof -
  obtain evs where e: "trace (snd (fetch ext url filename loc st)) = trace st @ evs"
      "\<forall>ev\<in>set evs. (\<exists>u. ev = RequestsGet u) \<or> (\<exists>m. ev = Log INFO m)"
    using fetch_trace by blast
  have "filter P evs = []" using e(2) assms by (auto simp: filter_empty_conv)
  then show ?thesis using e(1) by simp
qed

lemma download_one_no_exit: "fst (download_one ext cfg self loc st) \<noteq> Inl (SystemExit c)"
  using fetch_no_exit [of ext]
  by (auto simp: download_one_def run_simps split: sum.splits py_raise.splits)


lemma download_one_Some:
  "fst (download_one ext cfg self loc st) = Inr (Some f) \<Longrightarrow>
     local_path cfg loc = Some f \<and> error_count (snd (download_one ext cfg self loc st)) = error_count st"
  using fetch_filter [of is_error_log ext]
  by (auto simp: download_one_def local_path_def error_count_def is_error_log_def run_simps
       split: sum.splits py_raise.splits if_splits)

lemma download_one_None:
  "fst (download_one ext cfg self loc st) = Inr None \<Longrightarrow>
     error_count (snd (download_one ext cfg self loc st)) = Suc (error_count st)"
  using fetch_filter [of is_error_log ext]
  by (auto simp: download_one_def local_path_def error_count_def is_error_log_def run_simps
       split: sum.splits py_raise.splits if_splits)


lemma download_loop_result:
  "download_loop ext cfg self locs acc st = (Inr files, st') \<Longrightarrow>
   \<exists>kept new. files = acc @ new \<and> subseq kept locs \<and> map (local_path cfg) kept = map Some new \<and>
        length new + error_count st' = length locs + error_count st"
proof (induction locs arbitrary: acc st)
  case Nil
  then show ?case by simp
next
  case (Cons loc rest)
  obtain r st1 where d: "download_one ext cfg self loc st = (r, st1)"
    by (cases "download_one ext cfg self loc st")
  show ?case
  proof (cases r)
    case (Inl x)
    then show ?thesis using Cons.prems d by simp
  next
    case (Inr v)
    show ?thesis
    proof (cases v)
      case None
      have e: "error_count st1 = Suc (error_count st)"
        using download_one_None [of ext cfg self loc st] d Inr None by simp
      from Cons.prems d Inr None
      have "download_loop ext cfg self rest acc st1 = (Inr files, st')" by simp
      from Cons.IH [OF this] obtain kept new where
        k: "files = acc @ new" "subseq kept rest" "map (local_path cfg) kept = map Some new"
           "length new + error_count st' = length rest + error_count st1" by blast
      have "subseq kept (loc # rest)" using k(2) by (rule list_emb_Cons)
      then show ?thesis using k e by (intro exI [of _ kept] exI [of _ new]) simp
    next
      case (Some f)
      have e: "local_path cfg loc = Some f" "error_count st1 = error_count st"
        using download_one_Some [of ext cfg self loc st f] d Inr Some by simp_all
      from Cons.prems d Inr Some
      have "download_loop ext cfg self rest (acc @ [f]) st1 = (Inr files, st')" by simp
      from Cons.IH [OF this] obtain kept new where
        k: "files = (acc @ [f]) @ new" "subseq kept rest" "map (local_path cfg) kept = map Some new"
           "length new + error_count st' = length rest + error_count st1" by blast
      have "subseq (loc # kept) (loc # rest)" using k(2) by simp
      then show ?thesis using k e
        by (intro exI [of _ "loc # kept"] exI [of _ "f # new"]) simp
    qed
  qed
qed

lemma country_of_has_sep: "CHR ''/'' \<in> set loc \<Longrightarrow> \<exists>c. country_of loc = Inr c"
proof -
  assume "CHR ''/'' \<in> set loc"
  then have "count_list loc CHR ''/'' \<noteq> 0" by (simp add: count_list_0_iff)
  then have "0 < count_list loc CHR ''/''" by simp
  then show ?thesis by (simp add: country_of_def py_index_def length_py_split)
qed

lemma map_fst_turns: "map fst (turns ext cfg self locs st) = locs"
  by (induction locs arbitrary: st) simp_all

lemma local_path_Some: "local_path cfg loc = Some p \<longleftrightarrow> (\<exists>c. country_of loc = Inr c \<and> p = local_filename (DOWNLOAD_DIR cfg) c)"
  by (auto simp: local_path_def split: sum.splits)

lemma download_one_kept_iff:
  "fst (download_one ext cfg self loc s) = Inr (Some f) \<longleftrightarrow>
     keeps_path ext cfg self loc s \<and> local_path cfg loc = Some f"
  using fetch_no_exit [of ext]
  by (auto simp: download_one_def keeps_path_def is_fresh_def download_attempt_def local_path_def
        Let_def and_then_alt try_except_alt
      split: sum.splits py_raise.splits)

lemma download_one_skipped_iff:
  "fst (download_one ext cfg self loc s) = Inr None \<longleftrightarrow> skips ext cfg self loc s"
  using fetch_no_exit [of ext]
  by (auto simp: download_one_def skips_def is_fresh_def download_attempt_def local_path_def
        Let_def and_then_alt try_except_alt is_RequestException_def
      split: sum.splits py_raise.splits py_exception.splits)

lemma keeps_not_skips: "keeps_path ext cfg self loc s \<Longrightarrow> \<not> skips ext cfg self loc s"
  by (auto simp: keeps_path_def skips_def)

lemma download_loop_turns:
  "download_loop ext cfg self locs acc st = (Inr files, st') \<Longrightarrow>
   map Some files =
     map Some acc @
     map (\<lambda>(loc, s). local_path cfg loc)
       (filter (\<lambda>(loc, s). keeps_path ext cfg self loc s) (turns ext cfg self locs st)) \<and>
   (\<forall>(loc, s)\<in>set (turns ext cfg self locs st).
      keeps_path ext cfg self loc s \<or> skips ext cfg self loc s)"
proof (induction locs arbitrary: acc st)
  case Nil
  then show ?case by simp
next
  case (Cons loc rest)
  obtain r st1 where d: "download_one ext cfg self loc st = (r, st1)"
    by (cases "download_one ext cfg self loc st")
  show ?case
  proof (cases r)
    case (Inl x)
    then show ?thesis using Cons.prems d by simp
  next
    case (Inr v)
    show ?thesis
    proof (cases v)
      case None
      have s: "skips ext cfg self loc st"
        using download_one_skipped_iff [of ext cfg self loc st] d Inr None by simp
      then have n: "\<not> keeps_path ext cfg self loc st" using keeps_not_skips by blast
      from Cons.prems d Inr None
      have "download_loop ext cfg self rest acc st1 = (Inr files, st')" by simp
      from Cons.IH [OF this] show ?thesis using s n d by simp
    next
      case (Some f)
      have k: "keeps_path ext cfg self loc st" "local_path cfg loc = Some f"
        using download_one_kept_iff [of ext cfg self loc st f] d Inr Some by simp_all
      from Cons.prems d Inr Some
      have "download_loop ext cfg self rest (acc @ [f]) st1 = (Inr files, st')" by simp
      from Cons.IH [OF this] show ?thesis using k d by simp
    qed
  qed
qed

lemma is_dir_emit: "is_dir (emit ev st) p = is_dir st p"
  by (simp add: is_dir_def fs_emit)

lemma is_dir_fs_write: "is_dir (fs_write p d t st) q \<Longrightarrow> is_dir st q"
  by (simp add: is_dir_def fs_write_def split: if_splits)

lemma open_wb_dirs: "is_dir (snd (open_wb ext p st)) q \<Longrightarrow> is_dir st q"
  by (auto simp: open_wb_def split: option.splits if_splits dest: is_dir_fs_write)

lemma write_chunks_dirs: "is_dir (snd (write_chunks ext p cs st)) q \<Longrightarrow> is_dir st q"
proof (induction cs arbitrary: st)
  case Nil
  then show ?case by simp
next
  case (Cons c cs)
  then show ?case
    by (auto split: option.splits dest: is_dir_fs_write)
qed

lemma fetch_dirs: "is_dir (snd (fetch ext url filename loc st)) q \<Longrightarrow> is_dir st q"
  by (auto simp: fetch_def Let_def and_then_alt is_dir_emit
      split: sum.splits option.splits if_splits
      dest!: write_chunks_dirs open_wb_dirs)

lemma download_one_dirs: "is_dir (snd (download_one ext cfg self loc st)) q \<Longrightarrow> is_dir st q"
  by (auto simp: download_one_def Let_def and_then_alt try_except_alt is_dir_emit
      split: sum.splits py_raise.splits if_splits
      dest!: fetch_dirs)

lemma open_wb_returns:
  "\<forall>s p. open_fault ext s p = None \<Longrightarrow> \<not> is_dir st p \<Longrightarrow> fst (open_wb ext p st) = Inr ()"
  by (auto simp: open_wb_def is_dir_def split: option.splits)

lemma write_chunks_returns:
  "\<forall>s p c. write_fault ext s p c = None \<Longrightarrow> fst (write_chunks ext p cs st) = Inr ()"
  by (induction cs arbitrary: st) simp_all

lemma fetch_returns_or_request_error:
  assumes "local_files_writable ext" "only_request_errors ext" "\<not> is_dir st filename"
  shows "fst (fetch ext url filename loc st) = Inr () \<or>
         (\<exists>e. fst (fetch ext url filename loc st) = Inl (Exc e) \<and> is_RequestException e)"
proof -
  let ?st1 = "emit (RequestsGet url) st"
  have o: "\<forall>s p. open_fault ext s p = None" and w: "\<forall>s p c. write_fault ext s p c = None"
    using assms(1) by (simp_all add: local_files_writable_def)
  have a1: "\<not> is_dir ?st1 filename" using assms(3) by (simp add: is_dir_emit)
  show ?thesis
  proof (cases "requests_get ext ?st1 url")
    case (Inl e)
    then have "is_RequestException e" using assms(2) by (auto simp: only_request_errors_def)
    then show ?thesis using Inl by (simp add: fetch_def Let_def)
  next
    case (Inr resp)
    show ?thesis
    proof (cases "400 \<le> status_code resp \<and> status_code resp < 600")
      case True
      then show ?thesis using Inr by (simp add: fetch_def Let_def is_RequestException_def)
    next
      case False
      have b: "fst (open_wb ext filename ?st1) = Inr ()"
        using open_wb_returns [OF o a1] .
      have c: "fst (write_chunks ext filename (chunks resp) s) = Inr ()" for s
        using write_chunks_returns [OF w] .
      have s: "stream_error resp = Some e \<Longrightarrow> is_RequestException e" for e
        using assms(2) Inr by (auto simp: only_request_errors_def)
      show ?thesis using Inr False b c s
        by (auto simp: fetch_def Let_def and_then_alt split: option.split)
    qed
  qed
qed

lemma download_one_returns:
  assumes "local_files_writable ext" "only_request_errors ext" "CHR ''/'' \<in> set loc"
    and "\<forall>p. local_path cfg loc = Some p \<longrightarrow> \<not> is_dir st p"
  shows "\<exists>r. fst (download_one ext cfg self loc st) = Inr r"
proof -
  obtain c where c: "country_of loc = Inr c" using country_of_has_sep [OF assms(3)] by blast
  let ?p = "local_filename (DOWNLOAD_DIR cfg) c"
  let ?st1 = "emit (Log INFO (''Downloading OSM file for '' @ loc)) st"
  have "\<not> is_dir st ?p" using assms(4) c by (simp add: local_path_def)
  then have a1: "\<not> is_dir ?st1 ?p" by (simp add: is_dir_emit)
  note f = fetch_returns_or_request_error [OF assms(1,2) a1,
      of "base_url self @ ''/'' @ remote_filepath loc" loc]
  show ?thesis using c f
    by (auto simp: download_one_def Let_def and_then_alt try_except_alt
        split: sum.splits py_raise.splits)
qed

lemma download_loop_returns:
  "local_files_writable ext \<Longrightarrow> only_request_errors ext \<Longrightarrow>
   \<forall>loc\<in>set locs. CHR ''/'' \<in> set loc \<and> (\<forall>p. local_path cfg loc = Some p \<longrightarrow> \<not> is_dir st p) \<Longrightarrow>
   \<exists>files. fst (download_loop ext cfg self locs acc st) = Inr files"
proof (induction locs arbitrary: acc st)
  case Nil
  show ?case by simp
next
  case (Cons loc rest)
  obtain r st1 where d: "download_one ext cfg self loc st = (r, st1)"
    by (cases "download_one ext cfg self loc st")
  have "CHR ''/'' \<in> set loc" "\<forall>p. local_path cfg loc = Some p \<longrightarrow> \<not> is_dir st p"
    using Cons.prems(3) by simp_all
  from download_one_returns [OF Cons.prems(1,2) this, of self] d
  obtain v where r: "r = Inr v" by auto
  have rest: "\<forall>l\<in>set rest. CHR ''/'' \<in> set l \<and>
                (\<forall>p. local_path cfg l = Some p \<longrightarrow> \<not> is_dir st1 p)"
    using Cons.prems(3) download_one_dirs [of ext cfg self loc st] d by auto
  show ?case using d r Cons.IH [OF Cons.prems(1,2) rest]
    by (cases v) simp_all
qed

lemma skipped_count:
  assumes "\<forall>(loc, s)\<in>set ts. keeps_path ext cfg self loc s \<noteq> skips ext cfg self loc s"
  shows "length (filter (\<lambda>(loc, s). keeps_path ext cfg self loc s) ts) +
         length (filter (\<lambda>(loc, s). skips ext cfg self loc s) ts) = length ts"
  using assms by (induction ts) auto

text \<open>
  C1 fails as stated. With two configured locations, a stale togo file and a 404 for
  togo, \<open>download_files\<close> returns the benin path only: the \<open>continue\<close> of the
  \<open>except\<close> clause skips the \<open>append\<close>, so the list has length 1 and the path of
  the stale file is not in it.
\<close>

theorem download_files_drops_failed_counterexample:
  "fst (download_files example_externals example_config example_handler example_state) =
     Inr [''d/benin-latest.osm.pbf''] \<and>
   fst (download_files example_externals example_config example_handler example_state) \<noteq>
     Inr [''d/togo-latest.osm.pbf'', ''d/benin-latest.osm.pbf''] \<and>
   locations example_handler = [''africa/togo'', ''africa/benin''] \<and>
   fs example_state ''d/togo-latest.osm.pbf'' = Some stale_entry"
proof -
  have "fst (download_files example_externals example_config example_handler example_state) =
     Inr [''d/benin-latest.osm.pbf'']"
    by code_simp
  then show ?thesis by (simp add: example_handler_def example_state_def)
qed

text \<open>
  C1 as amended: \<open>download_files\<close> returns a list when every location has a country
  segment, no target path is a directory, the local files can be opened and written and
  \<open>requests\<close> raises nothing but request errors. When it returns, its list is, in
  configuration order, the local paths of exactly the locations whose turn keeps the
  path: those whose file is fresh or whose download succeeds. Every other location is
  skipped: its download raised a request error, it logged one error and it has no path in
  the list, whether or not a stale copy existed. So the number of logged errors is the
  number of skipped locations, the length of the list plus that number is the number of
  locations, and when no error is logged the list is the full list.
\<close>

theorem download_files_keeps_unskipped:
  "(local_files_writable ext \<and> only_request_errors ext \<and>
    (\<forall>loc\<in>set (locations self).
       CHR ''/'' \<in> set loc \<and> (\<forall>p. local_path cfg loc = Some p \<longrightarrow> \<not> is_dir st p)) \<longrightarrow>
      (\<exists>files. fst (download_files ext cfg self st) = Inr files)) \<and>
   (download_files ext cfg self st = (Inr files, st') \<longrightarrow>
     map fst (turns ext cfg self (locations self) st) = locations self \<and>
     map Some files =
       map (\<lambda>(loc, s). local_path cfg loc)
         (filter (\<lambda>(loc, s). keeps_path ext cfg self loc s)
            (turns ext cfg self (locations self) st)) \<and>
     (\<forall>(loc, s)\<in>set (turns ext cfg self (locations self) st).
        keeps_path ext cfg self loc s \<noteq> skips ext cfg self loc s) \<and>
     error_count st' =
       error_count st +
       length (filter (\<lambda>(loc, s). skips ext cfg self loc s)
                 (turns ext cfg self (locations self) st)) \<and>
     (\<exists>kept. subseq kept (locations self) \<and> map (local_path cfg) kept = map Some files) \<and>
     length files + error_count st' = length (locations self) + error_count st \<and>
     (error_count st' = error_count st \<longrightarrow>
        map (local_path cfg) (locations self) = map Some files))"
proof (intro conjI impI)
  assume "local_files_writable ext \<and> only_request_errors ext \<and>
    (\<forall>loc\<in>set (locations self).
       CHR ''/'' \<in> set loc \<and> (\<forall>p. local_path cfg loc = Some p \<longrightarrow> \<not> is_dir st p))"
  then show "\<exists>files. fst (download_files ext cfg self st) = Inr files"
    using download_loop_returns [of ext "locations self" cfg st self "[]"]
    by (simp add: download_files_def)
next
  let ?ts = "turns ext cfg self (locations self) st"
  assume a: "download_files ext cfg self st = (Inr files, st')"
  then have l: "download_loop ext cfg self (locations self) [] st = (Inr files, st')"
    by (simp add: download_files_def)
  show "map fst ?ts = locations self" by (rule map_fst_turns)
  have t: "map Some files =
       map (\<lambda>(loc, s). local_path cfg loc) (filter (\<lambda>(loc, s). keeps_path ext cfg self loc s) ?ts)"
    and e: "\<forall>(loc, s)\<in>set ?ts. keeps_path ext cfg self loc s \<or> skips ext cfg self loc s"
    using download_loop_turns [OF l] by simp_all
  show "map Some files =
       map (\<lambda>(loc, s). local_path cfg loc) (filter (\<lambda>(loc, s). keeps_path ext cfg self loc s) ?ts)"
    by (rule t)
  show x: "\<forall>(loc, s)\<in>set ?ts. keeps_path ext cfg self loc s \<noteq> skips ext cfg self loc s"
    using e keeps_not_skips by fastforce
  obtain kept where k: "subseq kept (locations self)"
      "map (local_path cfg) kept = map Some files"
      "length files + error_count st' = length (locations self) + error_count st"
    using download_loop_result [OF l] by auto
  have "length files = length (filter (\<lambda>(loc, s). keeps_path ext cfg self loc s) ?ts)"
    using t by (metis length_map)
  moreover have "length ?ts = length (locations self)"
    using map_fst_turns [of ext cfg self "locations self" st] by (metis length_map)
  ultimately show "error_count st' =
       error_count st + length (filter (\<lambda>(loc, s). skips ext cfg self loc s) ?ts)"
    using skipped_count [OF x] k(3) by simp
  show "\<exists>kept. subseq kept (locations self) \<and> map (local_path cfg) kept = map Some files"
    using k by blast
  show "length files + error_count st' = length (locations self) + error_count st"
    by (rule k(3))
  assume c: "error_count st' = error_count st"
  have "length kept = length files" using k(2) by (metis length_map)
  then have "length kept = length (locations self)" using k(3) c by simp
  then have "kept = locations self" using k(1) by (simp add: subseq_same_length)
  then show "map (local_path cfg) (locations self) = map Some files" using k(2) by simp
qed

theorem download_files_keeps_unskipped_witness:
  "is_dir started_state ''d'' \<and>
   fst (download_files example_externals example_config example_handler started_state) =
     Inr [''d/benin-latest.osm.pbf''] \<and>
   skips example_externals example_config example_handler ''africa/togo'' started_state \<and>
   \<not> keeps_path example_externals example_config example_handler ''africa/togo'' started_state \<and>
   keeps_path example_externals example_config example_handler ''africa/benin''
     (snd (download_one example_externals example_config example_handler ''africa/togo''
             started_state)) \<and>
   error_count (snd (download_files example_externals example_config example_handler
                       started_state)) = 1 \<and>
   fst (download_files example_externals example_config
          (example_handler\<lparr>locations := [''africa/benin'']\<rparr>) started_state) =
     Inr [''d/benin-latest.osm.pbf''] \<and>
   map (local_path example_config) [''africa/benin''] = map Some [''d/benin-latest.osm.pbf'']"
proof -
  let ?run = "download_files example_externals example_config example_handler started_state"
  let ?h = "example_handler\<lparr>locations := [''africa/benin'']\<rparr>"
  let ?one = "download_files example_externals example_config ?h started_state"
  let ?after = "snd (download_one example_externals example_config example_handler
                       ''africa/togo'' started_state)"
  note t = download_files_keeps_unskipped [of example_externals example_handler
      example_config started_state "[''d/benin-latest.osm.pbf'']" "snd ?run"]
  note u = download_files_keeps_unskipped [of example_externals ?h
      example_config started_state "[''d/benin-latest.osm.pbf'']" "snd ?one"]
  have dir: "is_dir started_state ''d''" by code_simp
  have p1: "local_path example_config ''africa/togo'' = Some ''d/togo-latest.osm.pbf''"
    and p2: "local_path example_config ''africa/benin'' = Some ''d/benin-latest.osm.pbf''"
    by code_simp+
  have n1: "\<not> is_dir started_state ''d/togo-latest.osm.pbf''"
    and n2: "\<not> is_dir started_state ''d/benin-latest.osm.pbf''"
    by code_simp+
  have w: "local_files_writable example_externals \<and> only_request_errors example_externals \<and>
    (\<forall>loc\<in>set (locations example_handler).
       CHR ''/'' \<in> set loc \<and>
       (\<forall>p. local_path example_config loc = Some p \<longrightarrow> \<not> is_dir started_state p))"
    using p1 p2 n1 n2
    by (auto simp: local_files_writable_def only_request_errors_def example_externals_def
        example_handler_def split: if_splits)
  have r: "\<exists>files. fst ?run = Inr files"
    using t [THEN conjunct1] w by (rule mp)
  have a: "fst ?run = Inr [''d/benin-latest.osm.pbf'']" by code_simp
  then have b: "?run = (Inr [''d/benin-latest.osm.pbf''], snd ?run)" by (simp add: prod_eq_iff)
  have c: "fst ?one = Inr [''d/benin-latest.osm.pbf'']" by code_simp
  then have d: "?one = (Inr [''d/benin-latest.osm.pbf''], snd ?one)" by (simp add: prod_eq_iff)
  have e: "error_count (snd ?one) = error_count started_state" by code_simp
  have f: "error_count started_state = 0" by code_simp
  have s: "skips example_externals example_config example_handler ''africa/togo'' started_state"
    by code_simp
  have k: "keeps_path example_externals example_config example_handler ''africa/benin'' ?after"
    by code_simp
  have ts: "turns example_externals example_config example_handler (locations example_handler)
              started_state = [(''africa/togo'', started_state), (''africa/benin'', ?after)]"
    by (simp add: example_handler_def)
  note tb = t [THEN conjunct2, THEN mp, OF b]
  have x: "\<forall>(loc, s)\<in>set (turns example_externals example_config example_handler
              (locations example_handler) started_state).
            keeps_path example_externals example_config example_handler loc s \<noteq>
            skips example_externals example_config example_handler loc s"
    using tb by blast
  have nk: "\<not> keeps_path example_externals example_config example_handler ''africa/togo''
              started_state"
    using x s by (simp add: ts)
  have 1: "length [''d/benin-latest.osm.pbf''] + error_count (snd ?run) =
             length (locations example_handler) + error_count started_state"
    using tb by blast
  have 2: "error_count (snd ?one) = error_count started_state \<longrightarrow>
             map (local_path example_config) (locations ?h) = map Some [''d/benin-latest.osm.pbf'']"
    using u [THEN conjunct2, THEN mp, OF d] by blast
  have 3: "error_count (snd ?run) = 1" using 1 f by (simp add: example_handler_def)
  have 4: "map (local_path example_config) [''africa/benin''] =
             map Some [''d/benin-latest.osm.pbf'']"
    using 2 e by simp
  show ?thesis using dir a s nk k c 3 4 by blast
qed
subsection \<open>The orchestrator\<close>



























subsection \<open>Config loader\<close>

lemma parse_lines_Cons:
  "parse_lines (raw # rest) d =
     parse_lines rest (if well_formed raw then dict_setdefault d (line_key raw) (line_value raw) else d)"
  by (simp add: Let_def well_formed_def line_key_def line_value_def py_split_max1_def)

lemma parse_lines_total: "\<exists>vars. parse_lines lines d = Inr vars"
  by (induction lines arbitrary: d) (simp_all only: parse_lines.simps(1) parse_lines_Cons, simp)

lemma dict_setdefault_distinct:
  "distinct (map fst d) \<Longrightarrow> distinct (map fst (dict_setdefault d k v))"
  by (auto simp: dict_setdefault_def map_of_eq_None_iff split: option.split)

lemma dict_setdefault_lookup:
  "map_of (dict_setdefault d k v) k' =
     (case map_of d k' of Some w \<Rightarrow> Some w | None \<Rightarrow> if k' = k then Some v else None)"
  by (auto simp: dict_setdefault_def map_of_append map_add_def split: option.splits)

lemma parse_lines_lookup:
  "parse_lines lines d = Inr vars \<Longrightarrow> distinct (map fst d) \<Longrightarrow>
   distinct (map fst vars) \<and>
   map_of vars k =
     (case map_of d k of Some w \<Rightarrow> Some w
      | None \<Rightarrow> map_of (map line_pair (filter well_formed lines)) k)"
proof (induction lines arbitrary: d)
  case Nil
  then show ?case by (auto split: option.split)
next
  case (Cons raw rest)
  show ?case
  proof (cases "well_formed raw")
    case True
    let ?d = "dict_setdefault d (line_key raw) (line_value raw)"
    have p: "parse_lines rest ?d = Inr vars" using Cons.prems(1) True by (simp only: parse_lines_Cons if_True)
    have "distinct (map fst ?d)" using Cons.prems(2) by (rule dict_setdefault_distinct)
    from Cons.IH [OF p this] show ?thesis using True
      by (auto simp: dict_setdefault_lookup line_pair_def split: option.splits)
  next
    case False
    have p: "parse_lines rest d = Inr vars" using Cons.prems(1) False by (simp only: parse_lines_Cons if_False)
    from Cons.IH [OF p Cons.prems(2)] show ?thesis using False by (simp cong: option.case_cong)
  qed
qed

lemma first_pair_lookup:
  assumes "kvs = pre @ (k, v) # post" "\<forall>p\<in>set pre. fst p \<noteq> k"
  shows "map_of kvs k = Some v"
proof -
  have "map_of pre k = None" using assms(2) by (auto simp: map_of_eq_None_iff)
  then show ?thesis using assms(1) by (simp add: map_of_append map_add_def)
qed

lemma os_environ_set_cases:
  "os_environ_set k v st = (Inr (), st\<lparr>environ := (environ st)(k \<mapsto> v)\<rparr>) \<or>
   (\<exists>e. os_environ_set k v st = (Inl (Exc e), st))"
  by (simp add: os_environ_set_def)

lemma os_environ_update_other:
  "k \<notin> fst ` set kvs \<Longrightarrow> environ (snd (os_environ_update kvs st)) k = environ st k"
proof (induction kvs arbitrary: st)
  case Nil
  show ?case by simp
next
  case (Cons kv rest)
  obtain k1 v1 where kv: "kv = (k1, v1)" by (cases kv)
  from Cons.prems have n: "k \<noteq> k1" "k \<notin> fst ` set rest" using kv by auto
  show ?case using os_environ_set_cases [of k1 v1 st] Cons.IH [OF n(2)] n(1) kv
    by (auto simp: and_then_def)
qed

lemma os_environ_update_sets:
  "os_environ_update kvs st = (Inr (), st') \<Longrightarrow> distinct (map fst kvs) \<Longrightarrow> map_of kvs k = Some v \<Longrightarrow>
   environ st' k = Some v"
proof (induction kvs arbitrary: st)
  case Nil
  then show ?case by simp
next
  case (Cons kv rest)
  obtain k1 v1 where kv: "kv = (k1, v1)" by (cases kv)
  let ?st1 = "st\<lparr>environ := (environ st)(k1 \<mapsto> v1)\<rparr>"
  have s: "os_environ_set k1 v1 st = (Inr (), ?st1)" and r: "os_environ_update rest ?st1 = (Inr (), st')"
    using Cons.prems(1) kv os_environ_set_cases [of k1 v1 st] by (auto simp: and_then_def)
  show ?case
  proof (cases "k = k1")
    case True
    then have "v = v1" using Cons.prems(3) kv by simp
    moreover have "k \<notin> fst ` set rest" using Cons.prems(2) kv True by auto
    ultimately show ?thesis using os_environ_update_other [of k rest ?st1] r True by simp
  next
    case False
    then have "map_of rest k = Some v" using Cons.prems(3) kv by simp
    moreover have "distinct (map fst rest)" using Cons.prems(2) by simp
    ultimately show ?thesis using Cons.IH [OF r] by simp
  qed
qed

lemma os_environ_setdefault_keeps:
  "environ st k = Some old \<Longrightarrow> environ (snd (os_environ_setdefault k' v st)) k = Some old"
  using os_environ_set_cases [of k' v st]
  by (auto simp: os_environ_setdefault_def split: option.split)

lemma os_environ_setdefault_all_keeps:
  "environ st k = Some old \<Longrightarrow> environ (snd (os_environ_setdefault_all kvs st)) k = Some old"
proof (induction kvs arbitrary: st)
  case Nil
  then show ?case by simp
next
  case (Cons kv rest)
  obtain k1 v1 where kv: "kv = (k1, v1)" by (cases kv)
  have "environ (snd (os_environ_setdefault k1 v1 st)) k = Some old"
    using Cons.prems by (rule os_environ_setdefault_keeps)
  from Cons.IH [OF this] show ?case using kv Cons.prems
    by (simp add: and_then_alt os_environ_setdefault_keeps split: sum.split)
qed

lemma os_environ_setdefault_all_new:
  "os_environ_setdefault_all kvs st = (Inr (), st') \<Longrightarrow> map_of kvs k = Some v \<Longrightarrow>
   environ st k = None \<Longrightarrow> environ st' k = Some v"
proof (induction kvs arbitrary: st)
  case Nil
  then show ?case by simp
next
  case (Cons kv rest)
  obtain k1 v1 where kv: "kv = (k1, v1)" by (cases kv)
  obtain r st1 where s: "os_environ_setdefault k1 v1 st = (r, st1)" by (cases "os_environ_setdefault k1 v1 st")
  have r: "r = Inr ()" and rest: "os_environ_setdefault_all rest st1 = (Inr (), st')"
    using Cons.prems(1) kv s by (auto simp: and_then_def split: sum.splits)
  show ?case
  proof (cases "k = k1")
    case True
    then have "v = v1" using Cons.prems(2) kv by simp
    have "environ st1 k = Some v"
      using s r True \<open>v = v1\<close> Cons.prems(3) os_environ_set_cases [of k1 v1 st]
      by (auto simp: os_environ_setdefault_def)
    then show ?thesis using os_environ_setdefault_all_keeps [of st1 k v rest] rest by simp
  next
    case False
    then have m: "map_of rest k = Some v" using Cons.prems(2) kv by simp
    have "environ st1 k = None"
      using s False Cons.prems(3) os_environ_set_cases [of k1 v1 st]
      by (auto simp: os_environ_setdefault_def split: option.splits)
    from Cons.IH [OF rest m this] show ?thesis .
  qed
qed

lemma load_env_file_setdefault_keeps:
  "environ st k = Some old \<Longrightarrow> environ (snd (load_env_file ext input False st)) k = Some old"
  by (auto simp: load_env_file_def load_from_def and_then_alt open_read_state environ_emit
        os_environ_setdefault_all_keeps split: sum.splits)

lemma load_env_file_run:
  assumes "load_env_file ext input override st = (Inr (), st')"
    and "fs st (dotenv_path_of st input) = Some en"
  shows "\<exists>vars. parse_lines (splitlines (content en)) [] = Inr vars \<and> distinct (map fst vars) \<and>
           (\<forall>k. map_of vars k = map_of (map line_pair (filter well_formed (splitlines (content en)))) k) \<and>
           (if override then os_environ_update vars st else os_environ_setdefault_all vars st) = (Inr (), st')"
proof -
  let ?p = "dotenv_path_of st input"
  obtain vars where v: "parse_lines (splitlines (content en)) [] = Inr vars"
    using parse_lines_total by blast
  have l: "load_from ext ?p override st = (Inr (), st')"
    using assms(1) by (auto simp: load_env_file_def dotenv_path_of_def split: if_splits)
  have o: "open_read ext ?p st = (Inr (content en), st)"
    using l assms(2) by (auto simp: load_from_def and_then_def open_read_def split: option.splits if_splits)
  have "(if override then os_environ_update vars st else os_environ_setdefault_all vars st) = (Inr (), st')"
    using l o v by (simp add: load_from_def and_then_def)
  moreover have "distinct (map fst vars) \<and> (\<forall>k. map_of vars k = map_of (map line_pair (filter well_formed (splitlines (content en)))) k)"
    using parse_lines_lookup [OF v] by simp
  ultimately show ?thesis using v by blast
qed

lemma os_environ_set_valid:
  "valid_env_pair (k, v) \<Longrightarrow>
   os_environ_set k v st = (Inr (), st\<lparr>environ := (environ st)(k \<mapsto> v)\<rparr>)"
  by (simp add: os_environ_set_def valid_env_pair_def)

lemma os_environ_update_returns:
  "\<forall>kv\<in>set kvs. valid_env_pair kv \<Longrightarrow> fst (os_environ_update kvs st) = Inr ()"
proof (induction kvs arbitrary: st)
  case Nil
  show ?case by simp
next
  case (Cons kv rest)
  obtain k v where kv: "kv = (k, v)" by (cases kv)
  have "valid_env_pair (k, v)" using Cons.prems kv by simp
  then show ?case using Cons.IH Cons.prems kv
    by (simp add: os_environ_set_valid and_then_def)
qed

lemma os_environ_setdefault_all_returns:
  "\<forall>kv\<in>set kvs. valid_env_pair kv \<Longrightarrow> fst (os_environ_setdefault_all kvs st) = Inr ()"
proof (induction kvs arbitrary: st)
  case Nil
  show ?case by simp
next
  case (Cons kv rest)
  obtain k v where kv: "kv = (k, v)" by (cases kv)
  have "valid_env_pair (k, v)" using Cons.prems kv by simp
  then show ?case using Cons.IH Cons.prems kv
    by (simp add: os_environ_setdefault_def os_environ_set_valid and_then_def split: option.split)
qed

lemma dict_setdefault_set: "set (dict_setdefault d k v) \<subseteq> insert (k, v) (set d)"
  by (auto simp: dict_setdefault_def split: option.splits)

lemma parse_lines_set:
  "parse_lines lines d = Inr vars \<Longrightarrow>
   set vars \<subseteq> set d \<union> line_pair ` {l \<in> set lines. well_formed l}"
proof (induction lines arbitrary: d)
  case Nil
  then show ?case by simp
next
  case (Cons raw rest)
  show ?case
  proof (cases "well_formed raw")
    case True
    let ?d = "dict_setdefault d (line_key raw) (line_value raw)"
    have "parse_lines rest ?d = Inr vars"
      using Cons.prems True by (simp only: parse_lines_Cons if_True)
    from Cons.IH [OF this] show ?thesis
      using True dict_setdefault_set [of d "line_key raw" "line_value raw"]
      by (auto simp: line_pair_def)
  next
    case False
    have "parse_lines rest d = Inr vars"
      using Cons.prems False by (simp only: parse_lines_Cons if_False)
    from Cons.IH [OF this] show ?thesis by auto
  qed
qed

lemma load_env_file_unfold:
  assumes "fs st (dotenv_path_of st input) = Some en" "kind en = RegularFile"
    and "open_fault ext st (dotenv_path_of st input) = None"
    and "parse_lines (splitlines (content en)) [] = Inr vars"
  shows "load_env_file ext input override st =
           (if override then os_environ_update vars st else os_environ_setdefault_all vars st)"
  using assms
  by (auto simp: load_env_file_def load_from_def dotenv_path_of_def is_file_def open_read_def
        and_then_def split: if_splits)

text \<open>
  C3: in setdefault mode a variable already present in the environment keeps its value,
  whatever the file holds and however the load ends; in override mode, when the chosen
  file opens and \<open>os.environ\<close> accepts its pairs, the load returns and every key of
  the parsed file has the file's value in the environment.
\<close>

theorem load_env_file_modes:
  "(environ st k = Some old \<longrightarrow>
      environ (snd (load_env_file ext input False st)) k = Some old) \<and>
   (fs st (dotenv_path_of st input) = Some en \<and> kind en = RegularFile \<and>
    open_fault ext st (dotenv_path_of st input) = None \<and>
    parse_lines (splitlines (content en)) [] = Inr vars \<and>
    (\<forall>kv\<in>set vars. valid_env_pair kv) \<and> map_of vars k = Some v \<longrightarrow>
      fst (load_env_file ext input True st) = Inr () \<and>
      environ (snd (load_env_file ext input True st)) k = Some v)"
proof (intro conjI impI)
  assume "environ st k = Some old"
  then show "environ (snd (load_env_file ext input False st)) k = Some old"
    by (rule load_env_file_setdefault_keeps)
next
  assume a: "fs st (dotenv_path_of st input) = Some en \<and> kind en = RegularFile \<and>
    open_fault ext st (dotenv_path_of st input) = None \<and>
    parse_lines (splitlines (content en)) [] = Inr vars \<and>
    (\<forall>kv\<in>set vars. valid_env_pair kv) \<and> map_of vars k = Some v"
  then have u: "load_env_file ext input True st = os_environ_update vars st"
    using load_env_file_unfold [of st input en ext vars True] by simp
  have r: "fst (os_environ_update vars st) = Inr ()"
    using a os_environ_update_returns by blast
  then have p: "os_environ_update vars st = (Inr (), snd (os_environ_update vars st))"
    by (simp add: prod_eq_iff)
  have pv: "parse_lines (splitlines (content en)) [] = Inr vars" using a by blast
  have d: "distinct (map fst vars)" using parse_lines_lookup [OF pv] by simp
  have "environ (snd (os_environ_update vars st)) k = Some v"
    using os_environ_update_sets [OF p d] a by blast
  then show "fst (load_env_file ext input True st) = Inr ()"
    and "environ (snd (load_env_file ext input True st)) k = Some v"
    using u r by simp_all
qed

theorem load_env_file_modes_witness:
  "environ example_state ''A'' = Some ''9'' \<and>
   environ (snd (load_env_file example_externals ''.osm.env'' False example_state)) ''A'' =
     Some ''9'' \<and>
   fst (load_env_file example_externals ''.osm.env'' True example_state) = Inr () \<and>
   environ (snd (load_env_file example_externals ''.osm.env'' True example_state)) ''A'' =
     Some ''1''"
proof -
  note t = load_env_file_modes [of example_state "''A''" "''9''" example_externals "''.osm.env''"
      env_entry "[(''A'', ''1''), (''B'', ''2'')]" "''1''"]
  have e: "environ example_state ''A'' = Some ''9''" by (simp add: example_state_def)
  have p: "parse_lines (splitlines (content env_entry)) [] = Inr [(''A'', ''1''), (''B'', ''2'')]"
    by code_simp
  have h: "fs example_state (dotenv_path_of example_state ''.osm.env'') = Some env_entry \<and>
    kind env_entry = RegularFile \<and>
    open_fault example_externals example_state (dotenv_path_of example_state ''.osm.env'') = None \<and>
    parse_lines (splitlines (content env_entry)) [] = Inr [(''A'', ''1''), (''B'', ''2'')] \<and>
    (\<forall>kv\<in>set [(''A'', ''1''), (''B'', ''2'')]. valid_env_pair kv) \<and>
    map_of [(''A'', ''1''), (''B'', ''2'')] ''A'' = Some ''1''"
    using p
    by (simp add: example_state_def dotenv_path_of_def is_file_def env_entry_def
        example_externals_def valid_env_pair_def)
  have 1: "environ (snd (load_env_file example_externals ''.osm.env'' False example_state)) ''A'' =
     Some ''9''"
    using t [THEN conjunct1] e by (rule mp)
  have 2: "fst (load_env_file example_externals ''.osm.env'' True example_state) = Inr () \<and>
   environ (snd (load_env_file example_externals ''.osm.env'' True example_state)) ''A'' =
     Some ''1''"
    using t [THEN conjunct2] h by (rule mp)
  show ?thesis using e 1 2 by blast
qed

text \<open>
  C9: when a key appears on several well-formed lines, the parsed map holds the value
  of the first of them; when the chosen file opens and \<open>os.environ\<close> accepts the
  pairs of its well-formed lines, the load returns in both modes, and the environment
  holds that first value in override mode, and in setdefault mode holds it unless the
  variable was already set.
\<close>

theorem first_occurrence_wins:
  assumes "fs st (dotenv_path_of st input) = Some en" and "kind en = RegularFile"
    and "open_fault ext st (dotenv_path_of st input) = None"
    and "filter well_formed (splitlines (content en)) = pre @ raw # post"
    and "\<forall>l\<in>set pre. line_key l \<noteq> line_key raw"
    and "\<forall>l\<in>set (pre @ raw # post). valid_env_pair (line_pair l)"
  shows "(\<exists>vars. parse_lines (splitlines (content en)) [] = Inr vars \<and>
            map_of vars (line_key raw) = Some (line_value raw)) \<and>
         fst (load_env_file ext input True st) = Inr () \<and>
         environ (snd (load_env_file ext input True st)) (line_key raw) = Some (line_value raw) \<and>
         fst (load_env_file ext input False st) = Inr () \<and>
         environ (snd (load_env_file ext input False st)) (line_key raw) =
           (case environ st (line_key raw) of Some old \<Rightarrow> Some old
            | None \<Rightarrow> Some (line_value raw))"
proof -
  let ?lines = "splitlines (content en)"
  let ?kvs = "map line_pair (filter well_formed ?lines)"
  have "?kvs = map line_pair pre @ (line_key raw, line_value raw) # map line_pair post"
    using assms(4) by (simp add: line_pair_def)
  moreover have "\<forall>p\<in>set (map line_pair pre). fst p \<noteq> line_key raw"
    using assms(5) by (auto simp: line_pair_def)
  ultimately have f: "map_of ?kvs (line_key raw) = Some (line_value raw)"
    by (rule first_pair_lookup)
  obtain vars where v: "parse_lines ?lines [] = Inr vars"
    using parse_lines_total by blast
  have m: "map_of vars (line_key raw) = Some (line_value raw)"
    using parse_lines_lookup [OF v, of "line_key raw"] f by simp
  have d: "distinct (map fst vars)" using parse_lines_lookup [OF v] by simp
  have "set vars \<subseteq> line_pair ` set (filter well_formed ?lines)"
    using parse_lines_set [OF v] by auto
  then have ok: "\<forall>kv\<in>set vars. valid_env_pair kv"
    using assms(4,6) by auto
  have uo: "load_env_file ext input True st = os_environ_update vars st"
    using load_env_file_unfold [OF assms(1-3) v, of True] by simp
  have us: "load_env_file ext input False st = os_environ_setdefault_all vars st"
    using load_env_file_unfold [OF assms(1-3) v, of False] by simp
  have ro: "fst (os_environ_update vars st) = Inr ()"
    using ok by (rule os_environ_update_returns)
  then have po: "os_environ_update vars st = (Inr (), snd (os_environ_update vars st))"
    by (simp add: prod_eq_iff)
  have rs: "fst (os_environ_setdefault_all vars st) = Inr ()"
    using ok by (rule os_environ_setdefault_all_returns)
  then have ps: "os_environ_setdefault_all vars st =
                   (Inr (), snd (os_environ_setdefault_all vars st))"
    by (simp add: prod_eq_iff)
  have o: "environ (snd (os_environ_update vars st)) (line_key raw) = Some (line_value raw)"
    using os_environ_update_sets [OF po d m] .
  have s: "environ (snd (os_environ_setdefault_all vars st)) (line_key raw) =
             (case environ st (line_key raw) of Some old \<Rightarrow> Some old
              | None \<Rightarrow> Some (line_value raw))"
  proof (cases "environ st (line_key raw)")
    case None
    then show ?thesis using os_environ_setdefault_all_new [OF ps m] by simp
  next
    case (Some old)
    then show ?thesis using os_environ_setdefault_all_keeps [of st "line_key raw" old vars] by simp
  qed
  show ?thesis using v m uo us ro rs o s by auto
qed

theorem first_occurrence_wins_witness:
  "filter well_formed (splitlines (content env_entry)) = [] @ ''A=1'' # [''B=2'', ''A=3''] \<and>
   line_key ''A=3'' = line_key ''A=1'' \<and>
   fst (load_env_file example_externals ''.osm.env'' True example_state) = Inr () \<and>
   environ (snd (load_env_file example_externals ''.osm.env'' True example_state)) ''A'' =
     Some ''1'' \<and>
   fst (load_env_file example_externals ''.osm.env'' False
          (example_state\<lparr>environ := Map.empty\<rparr>)) = Inr () \<and>
   environ (snd (load_env_file example_externals ''.osm.env'' False
                   (example_state\<lparr>environ := Map.empty\<rparr>))) ''A'' = Some ''1''"
proof -
  let ?clean = "example_state\<lparr>environ := Map.empty\<rparr>"
  have c: "fs example_state (dotenv_path_of example_state ''.osm.env'') = Some env_entry"
    by (simp add: example_state_def dotenv_path_of_def is_file_def env_entry_def)
  have c': "fs ?clean (dotenv_path_of ?clean ''.osm.env'') = Some env_entry"
    by (simp add: example_state_def dotenv_path_of_def is_file_def env_entry_def)
  have r: "kind env_entry = RegularFile" by (simp add: env_entry_def)
  have o: "open_fault example_externals example_state
             (dotenv_path_of example_state ''.osm.env'') = None"
    by (simp add: example_externals_def)
  have o': "open_fault example_externals ?clean (dotenv_path_of ?clean ''.osm.env'') = None"
    by (simp add: example_externals_def)
  have d: "filter well_formed (splitlines (content env_entry)) = [] @ ''A=1'' # [''B=2'', ''A=3'']"
    by code_simp
  have k: "line_key ''A=1'' = ''A''" "line_value ''A=1'' = ''1''" "line_key ''A=3'' = ''A''"
    by code_simp+
  have n: "\<forall>l\<in>set ([]::string list). line_key l \<noteq> line_key ''A=1''" by simp
  have "valid_env_pair (line_pair ''A=1'')" "valid_env_pair (line_pair ''B=2'')"
    "valid_env_pair (line_pair ''A=3'')"
    by code_simp+
  then have v: "\<forall>l\<in>set ([] @ ''A=1'' # [''B=2'', ''A=3'']). valid_env_pair (line_pair l)"
    by simp
  note t = first_occurrence_wins [OF c r o d n v]
  note t' = first_occurrence_wins [OF c' r o' d n v]
  show ?thesis using t t' d k by (simp add: example_state_def)
qed

end
